theory Spec2Isabelle
  imports Complex_Main "HOL-Library.Log_Nat"
begin

section \<open>Double-precision arithmetic\<close>

text \<open>
  Every number of the program is an IEEE 754 double, and every \<open>+\<close>, \<open>*\<close> and \<open>/\<close> of the
  sources returns the double nearest to the exact result, a tie going to the double whose
  last bit is zero. Numbers are modelled as reals and each operation of the sources as the
  exact operation followed by \<open>to_double\<close>. A result too large for a double, which the
  machine turns into \<open>Infinity\<close>, is outside the model.
\<close>

text \<open>The integer nearest to \<open>x\<close>; of two that are equally near, the even one.\<close>

definition rne :: "real \<Rightarrow> int" where
  "rne x =
     (let f = \<lfloor>x\<rfloor>; r = x - of_int f
      in if r < 1 / 2 then f else if 1 / 2 < r then f + 1 else if even f then f else f + 1)"

text \<open>For \<open>x > 0\<close>, the exponent \<open>e\<close> with \<open>2 ^ e \<le> x < 2 ^ (e + 1)\<close>.\<close>

definition ilog2 :: "real \<Rightarrow> int" where
  "ilog2 x = (if 1 \<le> x then bitlen \<lfloor>x\<rfloor> - 1 else - bitlen (\<lceil>1 / x\<rceil> - 1))"

text \<open>
  The exponent of the last bit of the doubles around \<open>x\<close>: a double has 53 significant
  bits, and no bit below \<open>2 ^ - 1074\<close>.
\<close>

definition ulp_exponent :: "real \<Rightarrow> int" where
  "ulp_exponent x = max (ilog2 \<bar>x\<bar> - 52) (- 1074)"

definition to_double :: "real \<Rightarrow> real" where
  "to_double x =
     (if x = 0 then 0
      else of_int (rne (x / 2 powi ulp_exponent x)) * 2 powi ulp_exponent x)"

definition is_double :: "real \<Rightarrow> bool" where
  "is_double x = (to_double x = x)"

section \<open>Plex event source: the live event stream client\<close>

text \<open>
  The class \<open>PlexEventSource\<close> of
  \<open>apps/server/src/services/mediaServer/plex/eventSource.ts\<close> is embedded as a record of
  its private fields and one function per method, each taking the object and returning it
  updated. What the class reaches outside itself is made explicit in the same record:
  the timers of the event loop that are still pending, the clock, and the log of the events
  handed to \<open>emit\<close>.
\<close>

subsection \<open>Values delivered by the transport\<close>

text \<open>
  \<open>JSON.parse\<close> is a library function; its result is modelled as a value of the datatype
  \<open>json\<close>. An object is its list of members (a parsed object has no repeated key).
\<close>

datatype json =
    JNull
  | JBool bool
  | JNumber real
  | JString string
  | JArray "json list"
  | JObject "(string \<times> json) list"

text \<open>JavaScript truthiness of a parsed value, as \<open>if (v)\<close> tests it.\<close>

fun truthy :: "json \<Rightarrow> bool" where
  "truthy JNull = False"
| "truthy (JBool b) = b"
| "truthy (JNumber n) = (n \<noteq> 0)"
| "truthy (JString s) = (s \<noteq> [])"
| "truthy (JArray xs) = True"
| "truthy (JObject kvs) = True"

text \<open>
  \<open>EventSourceMessage.data\<close> as \<open>handleMessage\<close> sees it: falsy (\<open>NoData\<close>), a text on
  which \<open>JSON.parse\<close> throws (\<open>Unparseable\<close>), or a text that parses to a value.
\<close>

datatype message_data = NoData | Unparseable | Parsed json

text \<open>
  The argument of \<open>handleError\<close>: an \<open>Error\<close> instance with its message, another non-null
  object with its optional \<open>message\<close> and \<open>status\<close> members (rendered as text), or
  anything else.
\<close>

datatype error_arg =
    ErrorInstance string
  | ErrorEvent "string option" "string option"
  | OtherValue

subsection \<open>State\<close>

datatype SSEConnectionState = disconnected | connecting | connected | reconnecting | fallback

text \<open>
  \<open>SSE_CONFIG\<close> is imported from the package \<open>@tracearr/shared\<close>; its values are
  parameters of every function that reads them.
\<close>

record SSE_CONFIG =
  INITIAL_RETRY_DELAY_MS :: real
  MAX_RETRY_DELAY_MS :: real
  RETRY_MULTIPLIER :: real
  MAX_RETRIES :: nat
  HEARTBEAT_TIMEOUT_MS :: real

datatype callback = ReconnectCallback | HeartbeatCallback

record timer =
  timer_handle :: nat
  timer_callback :: callback
  timer_due :: real

datatype emitted =
    session_playing json
  | session_paused json
  | session_stopped json
  | connection_state SSEConnectionState
  | connection_error string

text \<open>
  The first eight fields are the private fields of the class (\<open>eventSource\<close> is \<open>True\<close>
  while the field holds a transport object, \<open>False\<close> while it is \<open>null\<close>; the timer fields
  hold the handle \<open>setTimeout\<close> returned). The last four are the environment:
  \<open>pending\<close> lists the timers that were set and have neither fired nor been cleared,
  \<open>nextTimer\<close> is the next fresh handle, \<open>clock\<close> the current time in milliseconds,
  \<open>emits\<close> the calls of \<open>this.emit\<close> so far, oldest first.
\<close>

record PlexEventSource =
  eventSource :: bool
  state :: SSEConnectionState
  reconnectAttempts :: nat
  reconnectTimer :: "nat option"
  heartbeatTimer :: "nat option"
  lastEventTime :: "real option"
  connectedAt :: "real option"
  lastError :: "string option"
  pending :: "timer list"
  nextTimer :: nat
  clock :: real
  emits :: "emitted list"

text \<open>The object after its constructor has run, at time \<open>t\<close>.\<close>

definition new_PlexEventSource :: "real \<Rightarrow> PlexEventSource" where
  "new_PlexEventSource t =
     \<lparr> eventSource = False, state = disconnected, reconnectAttempts = 0,
       reconnectTimer = None, heartbeatTimer = None, lastEventTime = None,
       connectedAt = None, lastError = None,
       pending = [], nextTimer = 0, clock = t, emits = [] \<rparr>"

subsection \<open>Timers and emit\<close>

definition emit :: "emitted \<Rightarrow> PlexEventSource \<Rightarrow> PlexEventSource" where
  "emit e s = s\<lparr>emits := emits s @ [e]\<rparr>"

text \<open>
  \<open>setTimeout\<close> registers a single-shot timer and returns its handle; \<open>clearTimeout\<close>
  removes the timer with that handle, and does nothing when it has already fired. The
  server runs on Node.js, whose \<open>setTimeout\<close> replaces a delay below 1 ms or above
  \<open>2 ^ 31 - 1\<close> ms by 1 ms and drops the fraction of a millisecond (\<open>timeout_ms\<close>).
\<close>

definition timeout_ms :: "real \<Rightarrow> real" where
  "timeout_ms after = (if 1 \<le> after \<and> after \<le> 2147483647 then of_int \<lfloor>after\<rfloor> else 1)"

definition setTimeout :: "callback \<Rightarrow> real \<Rightarrow> PlexEventSource \<Rightarrow> nat \<times> PlexEventSource" where
  "setTimeout cb after s =
     (nextTimer s,
      s\<lparr>pending := pending s @
            [\<lparr>timer_handle = nextTimer s, timer_callback = cb,
              timer_due = clock s + timeout_ms after\<rparr>],
        nextTimer := Suc (nextTimer s)\<rparr>)"

definition clearTimeout :: "nat \<Rightarrow> PlexEventSource \<Rightarrow> PlexEventSource" where
  "clearTimeout h s = s\<lparr>pending := filter (\<lambda>t. timer_handle t \<noteq> h) (pending s)\<rparr>"

subsection \<open>Methods\<close>

definition getState :: "PlexEventSource \<Rightarrow> SSEConnectionState" where
  "getState s = state s"

definition setState :: "SSEConnectionState \<Rightarrow> PlexEventSource \<Rightarrow> PlexEventSource" where
  "setState x s = (if state s \<noteq> x then emit (connection_state x) (s\<lparr>state := x\<rparr>) else s)"

definition clearTimers :: "PlexEventSource \<Rightarrow> PlexEventSource" where
  "clearTimers s =
     (let s1 = (case reconnectTimer s of
                  Some h \<Rightarrow> (clearTimeout h s)\<lparr>reconnectTimer := None\<rparr>
                | None \<Rightarrow> s)
      in (case heartbeatTimer s1 of
            Some h \<Rightarrow> (clearTimeout h s1)\<lparr>heartbeatTimer := None\<rparr>
          | None \<Rightarrow> s1))"

definition resetHeartbeatMonitor :: "SSE_CONFIG \<Rightarrow> PlexEventSource \<Rightarrow> PlexEventSource" where
  "resetHeartbeatMonitor cfg s =
     (let s1 = (case heartbeatTimer s of Some h \<Rightarrow> clearTimeout h s | None \<Rightarrow> s);
          (h, s2) = setTimeout HeartbeatCallback (HEARTBEAT_TIMEOUT_MS cfg) s1
      in s2\<lparr>heartbeatTimer := Some h\<rparr>)"

definition startHeartbeatMonitor :: "SSE_CONFIG \<Rightarrow> PlexEventSource \<Rightarrow> PlexEventSource" where
  "startHeartbeatMonitor cfg s = resetHeartbeatMonitor cfg s"

text \<open>
  \<open>Math.pow\<close> with a whole exponent, taken as the double nearest to the exact power (the
  language standard leaves the last bit of \<open>Math.pow\<close> to the engine; the powers
  \<open>x ^ 0 = 1\<close> and \<open>x ^ 1 = x\<close> and every power that is itself a double are exact in any
  case).
\<close>

definition Math_pow :: "real \<Rightarrow> nat \<Rightarrow> real" where
  "Math_pow x n = to_double (x ^ n)"

text \<open>
  The three local constants of \<open>scheduleReconnect\<close>, as functions of the attempt counter
  after its increment and of the value \<open>random\<close> that \<open>Math.random()\<close> returns.
\<close>

definition baseDelay :: "SSE_CONFIG \<Rightarrow> nat \<Rightarrow> real" where
  "baseDelay cfg attempts =
     min (to_double (INITIAL_RETRY_DELAY_MS cfg * Math_pow (RETRY_MULTIPLIER cfg) (attempts - 1)))
         (MAX_RETRY_DELAY_MS cfg)"

definition jitter :: "real \<Rightarrow> real" where
  "jitter random = to_double (random * 1000)"

definition delay :: "SSE_CONFIG \<Rightarrow> nat \<Rightarrow> real \<Rightarrow> real" where
  "delay cfg attempts random = to_double (baseDelay cfg attempts + jitter random)"

definition scheduleReconnect :: "SSE_CONFIG \<Rightarrow> real \<Rightarrow> PlexEventSource \<Rightarrow> PlexEventSource" where
  "scheduleReconnect cfg random s =
     (if reconnectAttempts s \<ge> MAX_RETRIES cfg then setState fallback s
      else
        let s1 = setState reconnecting s;
            s2 = s1\<lparr>reconnectAttempts := Suc (reconnectAttempts s1)\<rparr>;
            (h, s3) = setTimeout ReconnectCallback (delay cfg (reconnectAttempts s2) random) s2
        in s3\<lparr>reconnectTimer := Some h\<rparr>)"

definition errorMessage :: "error_arg \<Rightarrow> string" where
  "errorMessage e =
     (case e of
        ErrorInstance m \<Rightarrow> m
      | ErrorEvent msg status \<Rightarrow>
          (case msg of Some m \<Rightarrow> m | None \<Rightarrow> ''Connection error'') @
          (case status of Some c \<Rightarrow> '' (status: '' @ c @ '')'' | None \<Rightarrow> [])
      | OtherValue \<Rightarrow> ''Connection error'')"

definition handleError :: "SSE_CONFIG \<Rightarrow> real \<Rightarrow> error_arg \<Rightarrow> PlexEventSource \<Rightarrow> PlexEventSource" where
  "handleError cfg random e s =
     (let s1 = s\<lparr>lastError := Some (errorMessage e)\<rparr>;
          s2 = emit (connection_error (errorMessage e)) s1;
          s3 = (if eventSource s2 then s2\<lparr>eventSource := False\<rparr> else s2)
      in scheduleReconnect cfg random s3)"

text \<open>
  \<open>notification.state\<close>: reading a property of \<open>null\<close> throws a \<open>TypeError\<close>
  (the result \<open>None\<close>); a value that is no object has no such property, and the
  \<open>switch\<close> compares with \<open>===\<close>, so only a string can match a case.
\<close>

definition handlePlaySessionNotification ::
    "json \<Rightarrow> json option \<Rightarrow> PlexEventSource \<Rightarrow> PlexEventSource option" where
  "handlePlaySessionNotification notification eventType s =
     (case notification of
        JNull \<Rightarrow> None
      | JObject kvs \<Rightarrow>
          Some (case map_of kvs ''state'' of
                  Some (JString st) \<Rightarrow>
                    if st = ''playing'' then emit (session_playing notification) s
                    else if st = ''paused'' then emit (session_paused notification) s
                    else if st = ''stopped'' then emit (session_stopped notification) s
                    else if st = ''buffering'' then emit (session_playing notification) s
                    else s
                | _ \<Rightarrow> s)
      | _ \<Rightarrow> Some s)"

text \<open>
  The \<open>for\<close> loop of \<open>handleMessage\<close> over the container's notifications. A throw inside
  the loop ends it; what was emitted before stays emitted, and the enclosing \<open>catch\<close>
  logs the error.
\<close>

fun dispatch_notifications ::
    "json list \<Rightarrow> json option \<Rightarrow> PlexEventSource \<Rightarrow> PlexEventSource" where
  "dispatch_notifications [] ty s = s"
| "dispatch_notifications (n # ns) ty s =
     (case handlePlaySessionNotification n ty s of
        None \<Rightarrow> s
      | Some s' \<Rightarrow> dispatch_notifications ns ty s')"

text \<open>
  The wrapped format: \<open>container?.PlaySessionStateNotification\<close> is \<open>undefined\<close> when
  the container is \<open>undefined\<close>, \<open>null\<close> or no object with that member; a falsy member
  is skipped; a single notification is put into a one-element array. The argument is
  \<open>data.NotificationContainer\<close>, \<open>None\<close> when \<open>data\<close> has no such member.
\<close>

definition dispatch_container :: "json option \<Rightarrow> PlexEventSource \<Rightarrow> PlexEventSource" where
  "dispatch_container container s =
     (case container of
        Some (JObject ckvs) \<Rightarrow>
          (case map_of ckvs ''PlaySessionStateNotification'' of
             Some v \<Rightarrow>
               if truthy v
               then dispatch_notifications (case v of JArray xs \<Rightarrow> xs | _ \<Rightarrow> [v])
                      (map_of ckvs ''type'') s
               else s
           | None \<Rightarrow> s)
      | _ \<Rightarrow> s)"

text \<open>
  The body of the \<open>try\<close> block of \<open>handleMessage\<close> together with its \<open>catch\<close>:
  \<open>'k' in data\<close> throws on a value that is no object (caught, nothing done); an array is
  an object without the two keys.
\<close>

definition dispatch_data :: "json \<Rightarrow> PlexEventSource \<Rightarrow> PlexEventSource" where
  "dispatch_data data s =
     (case data of
        JObject kvs \<Rightarrow>
          (case map_of kvs ''PlaySessionStateNotification'' of
             Some notification \<Rightarrow>
               if map_of kvs ''NotificationContainer'' = None
               then (case handlePlaySessionNotification notification
                            (Some (JString ''playing'')) s of
                       None \<Rightarrow> s | Some s' \<Rightarrow> s')
               else dispatch_container (map_of kvs ''NotificationContainer'') s
           | None \<Rightarrow> dispatch_container (map_of kvs ''NotificationContainer'') s)
      | _ \<Rightarrow> s)"

definition handleMessage :: "SSE_CONFIG \<Rightarrow> message_data \<Rightarrow> PlexEventSource \<Rightarrow> PlexEventSource" where
  "handleMessage cfg event_data s =
     (let s1 = s\<lparr>lastEventTime := Some (clock s)\<rparr>;
          s2 = resetHeartbeatMonitor cfg s1
      in (case event_data of
            NoData \<Rightarrow> s2
          | Unparseable \<Rightarrow> s2
          | Parsed data \<Rightarrow> dispatch_data data s2))"

text \<open>
  \<open>connect\<close>, once the \<open>eventsource\<close> package is loaded. \<open>ctor\<close> says whether
  \<open>new EventSourceClass\<close> throws, and with which message; \<open>random\<close> is the value
  \<open>Math.random()\<close> would return in \<open>scheduleReconnect\<close>. The handlers the method
  registers on the transport are the functions \<open>onopen\<close>, \<open>handleMessage\<close> and
  \<open>handleError\<close>.
\<close>

definition connect :: "SSE_CONFIG \<Rightarrow> string option \<Rightarrow> real \<Rightarrow> PlexEventSource \<Rightarrow> PlexEventSource" where
  "connect cfg ctor random s =
     (if state s = connected \<or> state s = connecting then s
      else
        let s1 = setState connecting s;
            s2 = clearTimers s1
        in (case ctor of
              None \<Rightarrow> s2\<lparr>eventSource := True\<rparr>
            | Some m \<Rightarrow> handleError cfg random (ErrorInstance m) s2))"

definition onopen :: "SSE_CONFIG \<Rightarrow> PlexEventSource \<Rightarrow> PlexEventSource" where
  "onopen cfg s =
     (let s1 = setState connected s;
          s2 = s1\<lparr>connectedAt := Some (clock s1), reconnectAttempts := 0, lastError := None\<rparr>
      in startHeartbeatMonitor cfg s2)"

definition disconnect :: "PlexEventSource \<Rightarrow> PlexEventSource" where
  "disconnect s =
     (let s1 = clearTimers s;
          s2 = (if eventSource s1 then s1\<lparr>eventSource := False\<rparr> else s1);
          s3 = setState disconnected s2
      in s3\<lparr>connectedAt := None\<rparr>)"

subsection \<open>The event loop\<close>

text \<open>
  What can happen to the object: a caller invokes \<open>connect\<close> or \<open>disconnect\<close>; the
  transport object, while the field \<open>eventSource\<close> holds one, calls one of the handlers
  registered on it; time passes; the pending timer that is due first fires (of two timers
  due at the same time, the one set first). \<open>step\<close> is \<open>None\<close> when the event cannot
  happen in that state. The arguments \<open>ctor\<close> and \<open>random\<close> are those of \<open>connect\<close>.
\<close>

datatype event =
    Connect "string option" real
  | Disconnect
  | Open
  | Message message_data
  | TransportError error_arg real
  | Elapse real
  | Fire "string option" real

fun earliest :: "timer list \<Rightarrow> timer option" where
  "earliest [] = None"
| "earliest (t # ts) =
     (case earliest ts of
        None \<Rightarrow> Some t
      | Some u \<Rightarrow> if timer_due u < timer_due t then Some u else Some t)"

text \<open>The two callbacks handed to \<open>setTimeout\<close>.\<close>

definition run_callback ::
    "SSE_CONFIG \<Rightarrow> string option \<Rightarrow> real \<Rightarrow> callback \<Rightarrow> PlexEventSource \<Rightarrow> PlexEventSource" where
  "run_callback cfg ctor random cb s =
     (case cb of
        ReconnectCallback \<Rightarrow> connect cfg ctor random s
      | HeartbeatCallback \<Rightarrow> handleError cfg random (ErrorInstance ''Heartbeat timeout'') s)"

text \<open>\<open>Math.random()\<close> returns a double from 0 (inclusive) to 1 (exclusive).\<close>

definition valid_random :: "real \<Rightarrow> bool" where
  "valid_random u = (0 \<le> u \<and> u < 1 \<and> is_double u)"

definition step :: "SSE_CONFIG \<Rightarrow> event \<Rightarrow> PlexEventSource \<Rightarrow> PlexEventSource option" where
  "step cfg ev s =
     (case ev of
        Connect ctor j \<Rightarrow> if valid_random j then Some (connect cfg ctor j s) else None
      | Disconnect \<Rightarrow> Some (disconnect s)
      | Open \<Rightarrow> if eventSource s then Some (onopen cfg s) else None
      | Message d \<Rightarrow> if eventSource s then Some (handleMessage cfg d s) else None
      | TransportError e j \<Rightarrow>
          if eventSource s \<and> valid_random j then Some (handleError cfg j e s) else None
      | Elapse d \<Rightarrow>
          if 0 \<le> d \<and> list_all (\<lambda>t. clock s + d \<le> timer_due t) (pending s)
          then Some (s\<lparr>clock := clock s + d\<rparr>) else None
      | Fire ctor j \<Rightarrow>
          (case earliest (pending s) of
             None \<Rightarrow> None
           | Some t \<Rightarrow>
               if valid_random j
               then Some (run_callback cfg ctor j (timer_callback t)
                            (s\<lparr>pending := filter (\<lambda>u. timer_handle u \<noteq> timer_handle t) (pending s),
                               clock := max (clock s) (timer_due t)\<rparr>))
               else None))"

fun run :: "SSE_CONFIG \<Rightarrow> event list \<Rightarrow> PlexEventSource \<Rightarrow> PlexEventSource option" where
  "run cfg [] s = Some s"
| "run cfg (e # es) s = (case step cfg e s of None \<Rightarrow> None | Some s' \<Rightarrow> run cfg es s')"

text \<open>What was handed to \<open>emit\<close> between an earlier state and a later one.\<close>

definition emitted_since :: "PlexEventSource \<Rightarrow> PlexEventSource \<Rightarrow> emitted list" where
  "emitted_since s s' = drop (length (emits s)) (emits s')"

text \<open>The pending timers whose callback reconnects.\<close>

definition reconnect_timers :: "PlexEventSource \<Rightarrow> timer list" where
  "reconnect_timers s = filter (\<lambda>t. timer_callback t = ReconnectCallback) (pending s)"

section \<open>Tautulli history import\<close>

text \<open>
  \<open>TautulliService.importHistory\<close> (the second file of
  \<open>apps/server/src/services/mediaServer/plex/eventSource.ts\<close>). The table \<open>sessions\<close> is
  a list of rows, oldest first; a query is a function of that list. The schema of the table
  is not part of the sources: a row has the columns the method reads or writes, and
  \<open>session_id\<close> is the primary key \<open>sessions.id\<close>. Time stamps are milliseconds since the
  epoch.
\<close>

subsection \<open>Data\<close>

record TautulliHistoryRecord =
  reference_id :: string
  started :: int
  stopped :: int
  duration :: int
  user_id :: int
  ip_address :: string
  media_type :: string
  rating_key :: string
  full_title :: string
  title :: string
  player :: string
  product :: string
  platform :: string
  transcode_decision :: string
  percent_complete :: int
  session_key :: "string option"

datatype mediaType = movie | episode | track

record geo =
  city :: "string option"
  country :: "string option"
  lat :: "real option"
  lon :: "real option"

text \<open>The columns of an inserted row that no query of the import reads.\<close>

record session_details =
  sessionKey :: string
  session_state :: string
  session_mediaType :: mediaType
  mediaTitle :: string
  ipAddress :: string
  session_geo :: geo
  playerName :: string
  session_platform :: string
  quality :: string
  isTranscode :: bool
  bitrate :: "int option"

record session_row =
  session_id :: nat
  serverId :: string
  userId :: string
  ratingKey :: string
  externalSessionId :: "string option"
  startedAt :: int
  stoppedAt :: "int option"
  durationMs :: "int option"
  totalDurationMs :: "int option"
  progressMs :: "int option"
  details :: session_details

datatype import_status = status_fetching | status_processing | status_complete | status_error

text \<open>
  The progress message, by its template; the numbers are those the template interpolates.
  The last template, \<open>Import failed: ...\<close>, is the one of the import queue.
\<close>

datatype import_message =
    Connecting
  | Found nat
  | ProcessingPage nat nat
  | RefreshingAggregates
  | ImportComplete nat nat nat
  | NotConfigured
  | ConnectFailed
  | ImportFailed string

record TautulliImportProgress =
  status :: import_status
  totalRecords :: nat
  processedRecords :: nat
  importedRecords :: nat
  skippedRecords :: nat
  errorRecords :: nat
  currentPage :: nat
  totalPages :: nat
  message :: import_message

record TautulliImportResult =
  success :: bool
  imported :: nat
  skipped :: nat
  errors :: nat
  result_message :: import_message

text \<open>
  The awaited call inside the \<open>try\<close> block that throws while a record is processed, if one
  does: a statement that throws has changed no row.
\<close>

datatype fault = SelectByRefFails | SelectByTimeFails | UpdateFails | LookupFails | InsertFails

text \<open>
  What \<open>tautulli.getHistory(page * PAGE_SIZE, PAGE_SIZE)\<close> does: it throws, or it returns
  the records of the page, each with the fault its processing will meet.
\<close>

datatype fetched =
    FetchFails string
  | Page "(TautulliHistoryRecord \<times> fault option) list"

text \<open>
  The local variables of \<open>importHistory\<close> from the loop on, the table, and the snapshots
  handed to \<open>pubSubService.publish\<close>, oldest first.
\<close>

record import_state =
  progress :: TautulliImportProgress
  imported_count :: nat
  skipped_count :: nat
  errors_count :: nat
  sessions :: "session_row list"
  published :: "TautulliImportProgress list"

definition PAGE_SIZE :: nat where
  "PAGE_SIZE = 100"

subsection \<open>Queries\<close>

text \<open>
  \<open>select ... where serverId = ? and externalSessionId = ? limit 1\<close>: a row whose column
  is \<open>NULL\<close> matches no value.
\<close>

definition existingByRef :: "string \<Rightarrow> string \<Rightarrow> session_row list \<Rightarrow> session_row option" where
  "existingByRef sid ref rows =
     find (\<lambda>r. serverId r = sid \<and> externalSessionId r = Some ref) rows"

definition existingByTime ::
    "string \<Rightarrow> string \<Rightarrow> string \<Rightarrow> int \<Rightarrow> session_row list \<Rightarrow> session_row option" where
  "existingByTime sid uid rk t rows =
     find (\<lambda>r. serverId r = sid \<and> userId r = uid \<and> ratingKey r = rk \<and> startedAt r = t) rows"

text \<open>\<open>update sessions set ... where id = ?\<close>.\<close>

definition update_where_id ::
    "nat \<Rightarrow> (session_row \<Rightarrow> session_row) \<Rightarrow> session_row list \<Rightarrow> session_row list" where
  "update_where_id i f rows = map (\<lambda>r. if session_id r = i then f r else r) rows"

text \<open>The key the table gives an inserted row: one that no row has.\<close>

definition fresh_id :: "session_row list \<Rightarrow> nat" where
  "fresh_id rows = Suc (fold max (map session_id rows) 0)"

text \<open>
  \<open>Math.round\<close> rounds a double to the nearest integer, a half upwards. Its argument
  \<open>(record.percent_complete / 100) * (existing.totalDurationMs ?? 0)\<close> is a quotient and a
  product of doubles.
\<close>

definition Math_round :: "real \<Rightarrow> int" where
  "Math_round x = \<lfloor>x + 1 / 2\<rfloor>"

definition computed_progress :: "int \<Rightarrow> int option \<Rightarrow> int" where
  "computed_progress percent totalDuration =
     Math_round (to_double (to_double (real_of_int percent / 100) *
                 real_of_int (case totalDuration of Some d \<Rightarrow> d | None \<Rightarrow> 0)))"

subsection \<open>One record\<close>

definition publishProgress :: "import_state \<Rightarrow> import_state" where
  "publishProgress st = st\<lparr>published := published st @ [progress st]\<rparr>"

definition count_processed :: "import_state \<Rightarrow> import_state" where
  "count_processed st =
     st\<lparr>progress := (progress st)\<lparr>processedRecords := processedRecords (progress st) + 1\<rparr>\<rparr>"

definition count_skipped :: "import_state \<Rightarrow> import_state" where
  "count_skipped st =
     st\<lparr>skipped_count := skipped_count st + 1,
        progress := (progress st)\<lparr>skippedRecords := skippedRecords (progress st) + 1\<rparr>\<rparr>"

definition count_imported :: "import_state \<Rightarrow> import_state" where
  "count_imported st =
     st\<lparr>imported_count := imported_count st + 1,
        progress := (progress st)\<lparr>importedRecords := importedRecords (progress st) + 1\<rparr>\<rparr>"

definition count_error :: "import_state \<Rightarrow> import_state" where
  "count_error st =
     st\<lparr>errors_count := errors_count st + 1,
        progress := (progress st)\<lparr>errorRecords := errorRecords (progress st) + 1\<rparr>\<rparr>"

text \<open>The statement after the \<open>try\<close> block; a \<open>continue\<close> inside the block skips it.\<close>

definition publish_every_10 :: "import_state \<Rightarrow> import_state" where
  "publish_every_10 st =
     (if processedRecords (progress st) mod 10 = 0 then publishProgress st else st)"

definition new_session ::
    "string \<Rightarrow> string \<Rightarrow> (string \<Rightarrow> geo) \<Rightarrow> TautulliHistoryRecord \<Rightarrow> nat \<Rightarrow> session_row" where
  "new_session sid uid lookup r i =
     \<lparr> session_id = i, serverId = sid, userId = uid, ratingKey = rating_key r,
       externalSessionId = Some (reference_id r),
       startedAt = started r * 1000,
       stoppedAt = Some (stopped r * 1000),
       durationMs = Some (duration r * 1000),
       totalDurationMs = None, progressMs = None,
       details =
         \<lparr> sessionKey = (case session_key r of Some k \<Rightarrow> k | None \<Rightarrow> ''tautulli-'' @ reference_id r),
           session_state = ''stopped'',
           session_mediaType =
             (if media_type r = ''episode'' then episode
              else if media_type r = ''track'' then track else movie),
           mediaTitle = (if full_title r \<noteq> [] then full_title r else title r),
           ipAddress = (if ip_address r \<noteq> [] then ip_address r else ''0.0.0.0''),
           session_geo = lookup (ip_address r),
           playerName = (if player r \<noteq> [] then player r else product r),
           session_platform = platform r,
           quality = (if transcode_decision r = ''transcode'' then ''Transcode'' else ''Direct''),
           isTranscode = (transcode_decision r = ''transcode''),
           bitrate = None \<rparr> \<rparr>"

text \<open>
  The body of the \<open>for\<close> loop. \<open>userMap.get\<close> is \<open>None\<close> for a user that is not in the
  map; \<open>!userId\<close> also holds of the empty string.
\<close>

definition process_record ::
    "string \<Rightarrow> (int \<Rightarrow> string option) \<Rightarrow> (string \<Rightarrow> geo) \<Rightarrow>
     TautulliHistoryRecord \<times> fault option \<Rightarrow> import_state \<Rightarrow> import_state" where
  "process_record sid userMap lookup rf st0 =
     (let r = fst rf; flt = snd rf; st = count_processed st0 in
      case userMap (user_id r) of
        None \<Rightarrow> count_skipped st
      | Some uid \<Rightarrow>
          if uid = [] then count_skipped st
          else if flt = Some SelectByRefFails then publish_every_10 (count_error st)
          else
            (case existingByRef sid (reference_id r) (sessions st) of
               Some existing \<Rightarrow>
                 if flt = Some UpdateFails then publish_every_10 (count_error st)
                 else count_skipped
                   (st\<lparr>sessions := update_where_id (session_id existing)
                        (\<lambda>row. row\<lparr>stoppedAt := Some (stopped r * 1000),
                                   durationMs := Some (duration r * 1000),
                                   progressMs := Some (computed_progress (percent_complete r)
                                                         (totalDurationMs existing))\<rparr>)
                        (sessions st)\<rparr>)
             | None \<Rightarrow>
                 if flt = Some SelectByTimeFails then publish_every_10 (count_error st)
                 else
                   (case existingByTime sid uid (rating_key r) (started r * 1000) (sessions st) of
                      Some existingSession \<Rightarrow>
                        if flt = Some UpdateFails then publish_every_10 (count_error st)
                        else count_skipped
                          (st\<lparr>sessions := update_where_id (session_id existingSession)
                               (\<lambda>row. row\<lparr>externalSessionId := Some (reference_id r),
                                          stoppedAt := Some (stopped r * 1000),
                                          durationMs := Some (duration r * 1000)\<rparr>)
                               (sessions st)\<rparr>)
                    | None \<Rightarrow>
                        if flt = Some LookupFails \<or> flt = Some InsertFails
                        then publish_every_10 (count_error st)
                        else publish_every_10 (count_imported
                          (st\<lparr>sessions := sessions st @
                               [new_session sid uid lookup r (fresh_id (sessions st))]\<rparr>)))))"

subsection \<open>The page loop and the method\<close>

text \<open>
  The \<open>while\<close> loop. A throw of \<open>getHistory\<close> leaves the method: the result is \<open>Inl\<close>
  with the error and the state reached, the rows written so far included.
\<close>

function import_pages ::
    "string \<Rightarrow> (int \<Rightarrow> string option) \<Rightarrow> (string \<Rightarrow> geo) \<Rightarrow> (nat \<Rightarrow> fetched) \<Rightarrow>
     nat \<Rightarrow> nat \<Rightarrow> import_state \<Rightarrow> (string \<times> import_state) + import_state" where
  "import_pages sid userMap lookup getHistory n_total page st =
     (if page * PAGE_SIZE < n_total then
        (let st1 = publishProgress
               (st\<lparr>progress := (progress st)\<lparr>status := status_processing,
                                               currentPage := page + 1,
                                               message := ProcessingPage (page + 1)
                                                            (totalPages (progress st))\<rparr>\<rparr>)
         in case getHistory page of
              FetchFails e \<Rightarrow> Inl (e, st1)
            | Page records \<Rightarrow>
                import_pages sid userMap lookup getHistory n_total (page + 1)
                  (fold (process_record sid userMap lookup) records st1))
      else Inr st)"
  by pat_completeness auto
termination
  by (relation "measure (\<lambda>(sid, userMap, lookup, getHistory, n_total, page, st).
                           n_total - page * PAGE_SIZE)")
     (auto simp: PAGE_SIZE_def)

declare import_pages.simps [simp del]

text \<open>
  What the method reads from outside: row 1 of the table \<open>settings\<close> (the two values it
  tests, if the row exists), the result of \<open>testConnection\<close>, the map from Tautulli user
  ids to local user ids it builds from the users of the server, the geolocation lookup, the
  total of \<open>getHistory(0, 1)\<close> (\<open>Inl\<close> when the call throws) and the pages.
\<close>

record tautulli_env =
  tautulli_settings :: "(string option \<times> string option) option"
  testConnection :: bool
  userMap_of :: "int \<Rightarrow> string option"
  geoip_lookup :: "string \<Rightarrow> geo"
  history_total :: "string + nat"
  history_page :: "nat \<Rightarrow> fetched"

definition configured :: "(string option \<times> string option) option \<Rightarrow> bool" where
  "configured cfg =
     (case cfg of
        Some (Some url, Some key) \<Rightarrow> url \<noteq> [] \<and> key \<noteq> []
      | _ \<Rightarrow> False)"

definition initial_progress :: TautulliImportProgress where
  "initial_progress =
     \<lparr> status = status_fetching, totalRecords = 0, processedRecords = 0, importedRecords = 0,
       skippedRecords = 0, errorRecords = 0, currentPage = 0, totalPages = 0,
       message = Connecting \<rparr>"

definition failed_result :: "import_message \<Rightarrow> TautulliImportResult" where
  "failed_result m = \<lparr> success = False, imported = 0, skipped = 0, errors = 0, result_message = m \<rparr>"

text \<open>
  The method: \<open>Inl\<close> when a call outside the \<open>try\<close> blocks throws, otherwise the result
  it returns; in both cases with the state reached (the table and everything published).
  \<open>Math.ceil(total / PAGE_SIZE)\<close> is \<open>(total + PAGE_SIZE - 1) div PAGE_SIZE\<close>.
\<close>

definition importHistory ::
    "string \<Rightarrow> tautulli_env \<Rightarrow> session_row list \<Rightarrow>
     (string \<times> import_state) + (TautulliImportResult \<times> import_state)" where
  "importHistory sid env rows =
     (let idle = \<lparr> progress = initial_progress, imported_count = 0, skipped_count = 0,
                   errors_count = 0, sessions = rows, published = [] \<rparr>
      in if \<not> configured (tautulli_settings env) then Inr (failed_result NotConfigured, idle)
         else if \<not> testConnection env then Inr (failed_result ConnectFailed, idle)
         else
           let st0 = publishProgress idle
           in case history_total env of
                Inl e \<Rightarrow> Inl (e, st0)
              | Inr n_total \<Rightarrow>
                  let st1 = publishProgress
                        (st0\<lparr>progress := (progress st0)\<lparr>totalRecords := n_total,
                               totalPages := (n_total + PAGE_SIZE - 1) div PAGE_SIZE,
                               message := Found n_total\<rparr>\<rparr>)
                  in case import_pages sid (userMap_of env) (geoip_lookup env)
                            (history_page env) n_total 0 st1 of
                       Inl thrown \<Rightarrow> Inl thrown
                     | Inr st2 \<Rightarrow>
                         let st3 = publishProgress
                               (st2\<lparr>progress := (progress st2)\<lparr>message := RefreshingAggregates\<rparr>\<rparr>);
                             final_message = ImportComplete (imported_count st3) (skipped_count st3)
                                      (errors_count st3);
                             st4 = publishProgress
                               (st3\<lparr>progress := (progress st3)\<lparr>status := status_complete,
                                                                 message := final_message\<rparr>\<rparr>)
                         in Inr (\<lparr> success = True, imported = imported_count st4,
                                   skipped = skipped_count st4, errors = errors_count st4,
                                   result_message = final_message \<rparr>, st4))"



section \<open>Import queue\<close>

text \<open>
  The module of \<open>src/unnamed/part_001\<close> that wraps the import in a BullMQ queue. The queue
  library is modelled by the list of the jobs it holds and the counter it draws job ids
  from: a job added without a custom id gets the next value of the counter, written in
  decimal.
\<close>

datatype JobState = waiting | active | delayed | completed | failed

record ImportJobData =
  job_type :: string
  job_serverId :: string
  job_userId :: string
  checkpoint :: "nat option"

record Job =
  job_id :: "string option"
  job_name :: string
  job_data :: ImportJobData
  job_state :: JobState

record Queue =
  jobs :: "Job list"
  id_counter :: nat

fun decimal :: "nat \<Rightarrow> string" where
  "decimal n =
     (if n < 10 then [char_of (48 + n)]
      else decimal (n div 10) @ [char_of (48 + n mod 10)])"

declare decimal.simps [simp del]

text \<open>\<open>queue.getJobs(types)\<close>: the jobs in the states listed, state by state.\<close>

definition getJobs :: "JobState list \<Rightarrow> Queue \<Rightarrow> Job list" where
  "getJobs types q = concat (map (\<lambda>ty. filter (\<lambda>j. job_state j = ty) (jobs q)) types)"

text \<open>\<open>queue.add(name, data)\<close>: the new job waits; the call returns it.\<close>

definition Queue_add :: "string \<Rightarrow> ImportJobData \<Rightarrow> Queue \<Rightarrow> Job \<times> Queue" where
  "Queue_add name d q =
     (let j = \<lparr> job_id = Some (decimal (Suc (id_counter q))), job_name = name, job_data = d,
                 job_state = waiting \<rparr>
      in (j, q\<lparr>jobs := jobs q @ [j], id_counter := Suc (id_counter q)\<rparr>))"

text \<open>The module variable \<open>importQueue\<close>, \<open>None\<close> while it is \<open>null\<close>.\<close>

datatype enqueue_error = NotInitialized | AlreadyInProgress string string

text \<open>
  \<open>existingJob?.id ?? null\<close>: \<open>None\<close> when no job is found or the job found has no id.
\<close>

definition getActiveImportForServer :: "string \<Rightarrow> Queue option \<Rightarrow> string option" where
  "getActiveImportForServer sid importQueue =
     (case importQueue of
        None \<Rightarrow> None
      | Some q \<Rightarrow>
          (case find (\<lambda>j. job_serverId (job_data j) = sid) (getJobs [active, waiting, delayed] q) of
             None \<Rightarrow> None
           | Some existingJob \<Rightarrow> job_id existingJob))"

text \<open>
  \<open>enqueueImport\<close>: the error thrown or the job id returned, and the module variable
  afterwards. \<open>if (existingJobId)\<close> is false of \<open>null\<close> and of the empty string;
  \<open>now\<close> is the text of \<open>Date.now()\<close>.
\<close>

definition enqueueImport ::
    "string \<Rightarrow> string \<Rightarrow> string \<Rightarrow> Queue option \<Rightarrow> (enqueue_error + string) \<times> Queue option" where
  "enqueueImport sid uid now importQueue =
     (case importQueue of
        None \<Rightarrow> (Inl NotInitialized, importQueue)
      | Some q \<Rightarrow>
          (case getActiveImportForServer sid importQueue of
             Some existingJobId \<Rightarrow>
               if existingJobId \<noteq> []
               then (Inl (AlreadyInProgress sid existingJobId), importQueue)
               else
                 (let (job, q') = Queue_add ''tautulli-import''
                        \<lparr> job_type = ''tautulli'', job_serverId = sid, job_userId = uid,
                          checkpoint = None \<rparr> q
                  in (Inr (case job_id job of Some i \<Rightarrow> i | None \<Rightarrow> ''unknown-'' @ now), Some q'))
           | None \<Rightarrow>
               (let (job, q') = Queue_add ''tautulli-import''
                      \<lparr> job_type = ''tautulli'', job_serverId = sid, job_userId = uid,
                        checkpoint = None \<rparr> q
                in (Inr (case job_id job of Some i \<Rightarrow> i | None \<Rightarrow> ''unknown-'' @ now), Some q'))))"

subsection \<open>The worker\<close>










section \<open>Notions used in the statements\<close>

subsection \<open>Event source\<close>

text \<open>
  Values of the constants of \<open>SSE_CONFIG\<close> used where a statement is evaluated: one second,
  doubling, thirty seconds at most, ten attempts, thirty seconds of silence.
\<close>

definition example_config :: SSE_CONFIG where
  "example_config =
     \<lparr> INITIAL_RETRY_DELAY_MS = 1000, MAX_RETRY_DELAY_MS = 30000, RETRY_MULTIPLIER = 2,
       MAX_RETRIES = 10, HEARTBEAT_TIMEOUT_MS = 30000 \<rparr>"

text \<open>
  The two wire shapes, as \<open>handleMessage\<close> tells them apart: the direct shape has the member
  \<open>PlaySessionStateNotification\<close> and no member \<open>NotificationContainer\<close>; the container
  shape has a \<open>NotificationContainer\<close> object with a truthy \<open>PlaySessionStateNotification\<close>.
\<close>

definition direct_shape :: "json \<Rightarrow> bool" where
  "direct_shape data =
     (case data of
        JObject kvs \<Rightarrow>
          map_of kvs ''PlaySessionStateNotification'' \<noteq> None \<and>
          map_of kvs ''NotificationContainer'' = None
      | _ \<Rightarrow> False)"

definition container_shape :: "json \<Rightarrow> bool" where
  "container_shape data =
     (case data of
        JObject kvs \<Rightarrow>
          (case map_of kvs ''NotificationContainer'' of
             Some (JObject ckvs) \<Rightarrow>
               (case map_of ckvs ''PlaySessionStateNotification'' of
                  Some v \<Rightarrow> truthy v
                | None \<Rightarrow> False)
           | _ \<Rightarrow> False)
      | _ \<Rightarrow> False)"

text \<open>The states announced by the \<open>connection:state\<close> events of a log, in order.\<close>

fun state_changes :: "emitted list \<Rightarrow> SSEConnectionState list" where
  "state_changes [] = []"
| "state_changes (connection_state x # es) = x # state_changes es"
| "state_changes (e # es) = state_changes es"

text \<open>
  Every change of state was announced and nothing else was: starting from \<open>disconnected\<close>,
  no two consecutive announcements name the same state, and the last one names the current
  state.
\<close>

definition notified :: "PlexEventSource \<Rightarrow> bool" where
  "notified s =
     (distinct_adj (disconnected # state_changes (emits s)) \<and>
      last (disconnected # state_changes (emits s)) = state s)"

text \<open>
  A run in which the transport fails while the heartbeat timer is about to expire: the
  object connects, the transport opens, \<open>d\<close> milliseconds pass in silence, the transport
  reports an error (\<open>Math.random()\<close> returns 1023 / 1024, a jitter of 999.0234375 ms), and the
  timer that is due first fires.
\<close>

definition late_error_trace :: "real \<Rightarrow> event list" where
  "late_error_trace d =
     [Connect None 0, Open, Elapse d, TransportError OtherValue (1023 / 1024), Fire None 0]"

text \<open>
  The same run, continued by a caller that invokes \<open>connect\<close> once for each attempt that is
  left, each attempt failing at once.
\<close>

definition exhausted_trace :: "SSE_CONFIG \<Rightarrow> real \<Rightarrow> event list" where
  "exhausted_trace cfg d =
     late_error_trace d @
     concat (replicate (MAX_RETRIES cfg - 1) [Connect None 0, TransportError OtherValue 0])"

text \<open>The continuation with the calls 50 ms apart, for nine attempts.\<close>

definition spaced_exhausted_trace :: "real \<Rightarrow> event list" where
  "spaced_exhausted_trace d =
     late_error_trace d @
     concat (replicate 9 [Elapse 50, Connect None 0, TransportError OtherValue 0])"

text \<open>The example constants with a single attempt allowed.\<close>

definition single_retry_config :: SSE_CONFIG where
  "single_retry_config = example_config\<lparr>MAX_RETRIES := 1\<rparr>"

text \<open>
  A pending reconnect timer that no field of the object refers to: neither \<open>clearTimers\<close>
  nor any other method can clear it.
\<close>

definition stale :: "timer \<Rightarrow> PlexEventSource \<Rightarrow> bool" where
  "stale r s =
     (timer_callback r = ReconnectCallback \<and> r \<in> set (pending s) \<and>
      reconnectTimer s \<noteq> Some (timer_handle r) \<and> heartbeatTimer s \<noteq> Some (timer_handle r) \<and>
      timer_handle r < nextTimer s)"

text \<open>
  The object is reconnecting for the \<open>a\<close>-th time, without a transport, and two reconnect
  timers are pending: the stale timer \<open>r\<close> and the one the field \<open>reconnectTimer\<close> refers to.
\<close>

definition retrying :: "timer \<Rightarrow> nat \<Rightarrow> PlexEventSource \<Rightarrow> bool" where
  "retrying r a s =
     (\<not> eventSource s \<and> state s = reconnecting \<and> reconnectAttempts s = a \<and> stale r s \<and>
      (\<exists>x. pending s = [r, x] \<and> reconnectTimer s = Some (timer_handle x)))"

text \<open>
  The object is in \<open>fallback\<close> with its attempts used up and no transport, and the reconnect
  timer \<open>r\<close> is the one timer pending.
\<close>

definition given_up :: "SSE_CONFIG \<Rightarrow> timer \<Rightarrow> PlexEventSource \<Rightarrow> bool" where
  "given_up cfg r s =
     (\<not> eventSource s \<and> state s = fallback \<and> MAX_RETRIES cfg \<le> reconnectAttempts s \<and>
      timer_callback r = ReconnectCallback \<and> pending s = [r])"

subsection \<open>Import\<close>






text \<open>The four counters of one snapshot are at most those of another.\<close>

definition progress_le :: "TautulliImportProgress \<Rightarrow> TautulliImportProgress \<Rightarrow> bool" where
  "progress_le p q =
     (processedRecords p \<le> processedRecords q \<and> importedRecords p \<le> importedRecords q \<and>
      skippedRecords p \<le> skippedRecords q \<and> errorRecords p \<le> errorRecords q)"

text \<open>
  The counters add up, and the local variables \<open>imported\<close>, \<open>skipped\<close> and \<open>errors\<close> agree
  with the counters of the progress object.
\<close>

definition accounted :: "import_state \<Rightarrow> bool" where
  "accounted st =
     (processedRecords (progress st) =
        importedRecords (progress st) + skippedRecords (progress st) + errorRecords (progress st) \<and>
      imported_count st = importedRecords (progress st) \<and>
      skipped_count st = skippedRecords (progress st) \<and>
      errors_count st = errorRecords (progress st))"

text \<open>The snapshots published so far, followed by the current progress, never decrease.\<close>

definition log_monotone :: "import_state \<Rightarrow> bool" where
  "log_monotone st = sorted_wrt progress_le (published st @ [progress st])"

datatype outcome = was_imported | was_skipped | was_error

text \<open>
  One record was processed: \<open>processedRecords\<close> went up by one, and so did the counter of
  the outcome (with its local variable) and no other.
\<close>

definition counted_as :: "outcome \<Rightarrow> import_state \<Rightarrow> import_state \<Rightarrow> bool" where
  "counted_as out st st' =
     (processedRecords (progress st') = processedRecords (progress st) + 1 \<and>
      importedRecords (progress st') =
        importedRecords (progress st) + (if out = was_imported then 1 else 0) \<and>
      skippedRecords (progress st') =
        skippedRecords (progress st) + (if out = was_skipped then 1 else 0) \<and>
      errorRecords (progress st') =
        errorRecords (progress st) + (if out = was_error then 1 else 0) \<and>
      imported_count st' = imported_count st + (if out = was_imported then 1 else 0) \<and>
      skipped_count st' = skipped_count st + (if out = was_skipped then 1 else 0) \<and>
      errors_count st' = errors_count st + (if out = was_error then 1 else 0))"

definition state_after ::
    "(string \<times> import_state) + (TautulliImportResult \<times> import_state) \<Rightarrow> import_state" where
  "state_after out = (case out of Inl (e, st) \<Rightarrow> st | Inr (res, st) \<Rightarrow> st)"

definition pages_state :: "(string \<times> import_state) + import_state \<Rightarrow> import_state" where
  "pages_state out = (case out of Inl (e, st) \<Rightarrow> st | Inr st \<Rightarrow> st)"







subsection \<open>Queue\<close>

text \<open>The queue holds a job for the server that waits, runs or is delayed.\<close>

definition in_flight :: "string \<Rightarrow> Queue \<Rightarrow> bool" where
  "in_flight sid q =
     list_ex (\<lambda>j. job_serverId (job_data j) = sid \<and>
                   (job_state j = waiting \<or> job_state j = active \<or> job_state j = delayed))
             (jobs q)"

text \<open>Every job the queue holds has an id, and the id is not the empty text.\<close>

definition ids_present :: "Queue \<Rightarrow> bool" where
  "ids_present q = list_all (\<lambda>j. case job_id j of Some i \<Rightarrow> i \<noteq> [] | None \<Rightarrow> False) (jobs q)"

text \<open>Every job of the server has completed or failed.\<close>

definition all_terminal :: "string \<Rightarrow> Queue \<Rightarrow> bool" where
  "all_terminal sid q =
     list_all (\<lambda>j. if job_serverId (job_data j) = sid
                    then job_state j = completed \<or> job_state j = failed else True) (jobs q)"









text \<open>A queue whose only job, for server \<open>srv\<close>, is in the given state.\<close>

definition example_queue :: "JobState \<Rightarrow> Queue" where
  "example_queue js =
     \<lparr> jobs = [\<lparr> job_id = Some ''1'', job_name = ''tautulli-import'',
                 job_data = \<lparr> job_type = ''tautulli'', job_serverId = ''srv'',
                              job_userId = ''admin'', checkpoint = None \<rparr>,
                 job_state = js \<rparr>],
       id_counter = 1 \<rparr>"



section \<open>Properties of the double-precision arithmetic\<close>

text \<open>
  Rounding to the nearest double is monotone and odd, leaves a double as it is, and changes
  a number of the normal range by at most the fraction \<open>2 ^ - 53\<close> of it.
\<close>

lemma rne_of_int [simp]: "rne (of_int k) = k"
  by (simp add: rne_def)


lemma rne_floor_le: "\<lfloor>x\<rfloor> \<le> rne x" and rne_le_ceiling: "rne x \<le> \<lfloor>x\<rfloor> + 1"
  by (auto simp: rne_def Let_def)

lemma rne_mono:
  assumes "x \<le> y" shows "rne x \<le> rne y"
proof (cases "\<lfloor>x\<rfloor> = \<lfloor>y\<rfloor>")
  case True
  then show ?thesis using assms by (auto simp: rne_def Let_def)
next
  case False
  then have "\<lfloor>x\<rfloor> + 1 \<le> \<lfloor>y\<rfloor>" using assms floor_mono[OF assms] by linarith
  then show ?thesis using rne_le_ceiling[of x] rne_floor_le[of y] by linarith
qed

lemma two_powi_less_iff: "(2::real) powi a < 2 powi b \<longleftrightarrow> a < b"
proof
  assume l: "(2::real) powi a < 2 powi b"
  show "a < b"
  proof (rule ccontr)
    assume "\<not> a < b"
    then have "b \<le> a" by simp
    then have "(2::real) powi b \<le> 2 powi a" by (rule power_int_increasing) simp
    then show False using l by simp
  qed
next
  assume "a < b"
  then show "(2::real) powi a < 2 powi b" by (rule power_int_strict_increasing) simp
qed

lemma two_powi_le_iff: "(2::real) powi a \<le> 2 powi b \<longleftrightarrow> a \<le> b"
  using two_powi_less_iff[of b a] by (auto simp: not_less[symmetric])


lemma ilog2_bounds:
  assumes "0 < x"
  shows "2 powi (ilog2 x) \<le> x" and "x < 2 powi (ilog2 x + 1)"
proof -
  have "2 powi (ilog2 x) \<le> x \<and> x < 2 powi (ilog2 x + 1)"
  proof (cases "1 \<le> x")
    case True
    let ?n = "\<lfloor>x\<rfloor>"
    have n: "0 < ?n" using True by simp
    have b: "1 \<le> bitlen ?n" using n by (simp add: bitlen_alt_def)
    have i: "ilog2 x = bitlen ?n - 1" using True by (simp add: ilog2_def)
    from bitlen_bounds[OF n] have lo: "2 ^ nat (bitlen ?n - 1) \<le> ?n" and hi: "?n < 2 ^ nat (bitlen ?n)"
      by auto
    have "(2::real) powi (bitlen ?n - 1) = 2 ^ nat (bitlen ?n - 1)"
      using b by (simp add: power_int_def)
    also have "\<dots> = of_int (2 ^ nat (bitlen ?n - 1))" by simp
    also have "\<dots> \<le> of_int ?n" using lo by (simp only: of_int_le_iff)
    also have "\<dots> \<le> x" by simp
    finally have l: "2 powi (ilog2 x) \<le> x" unfolding i .
    have "?n + 1 \<le> 2 ^ nat (bitlen ?n)" using hi by simp
    then have "of_int (?n + 1) \<le> (of_int (2 ^ nat (bitlen ?n)) :: real)" by (simp only: of_int_le_iff)
    moreover have "x < of_int (?n + 1)" by linarith
    ultimately have "x < of_int (2 ^ nat (bitlen ?n))" by linarith
    then have "x < 2 ^ nat (bitlen ?n)" by simp
    also have "\<dots> = 2 powi (bitlen ?n)" using b by (simp add: power_int_def)
    finally have "x < 2 powi (ilog2 x + 1)" unfolding i by simp
    then show ?thesis using l by simp
  next
    case False
    let ?m = "\<lceil>1 / x\<rceil> - 1"
    have y: "1 < 1 / x" using False assms by simp
    then have m: "0 < ?m" by linarith
    have b: "1 \<le> bitlen ?m" using m by (simp add: bitlen_alt_def)
    have i: "ilog2 x = - bitlen ?m" using False by (simp add: ilog2_def)
    from bitlen_bounds[OF m] have lo: "2 ^ nat (bitlen ?m - 1) \<le> ?m" and hi: "?m < 2 ^ nat (bitlen ?m)"
      by auto
    have "?m + 1 \<le> 2 ^ nat (bitlen ?m)" using hi by simp
    then have "of_int (?m + 1) \<le> (of_int (2 ^ nat (bitlen ?m)) :: real)" by (simp only: of_int_le_iff)
    moreover have "1 / x \<le> of_int (?m + 1)" by simp
    ultimately have "1 / x \<le> of_int (2 ^ nat (bitlen ?m))" by linarith
    then have "1 / x \<le> 2 ^ nat (bitlen ?m)" by simp
    then have "1 \<le> 2 ^ nat (bitlen ?m) * x" using assms by (simp add: field_simps)
    then have "1 / 2 ^ nat (bitlen ?m) \<le> x" by (simp add: field_simps)
    moreover have "(2::real) powi (- bitlen ?m) = 1 / 2 ^ nat (bitlen ?m)"
      using b by (simp add: power_int_def field_simps)
    ultimately have l: "2 powi (ilog2 x) \<le> x" unfolding i by simp
    have "(of_int (2 ^ nat (bitlen ?m - 1)) :: real) \<le> of_int ?m" using lo by (simp only: of_int_le_iff)
    moreover have "of_int ?m < 1 / x" by linarith
    ultimately have "of_int (2 ^ nat (bitlen ?m - 1)) < 1 / x" by linarith
    then have "2 ^ nat (bitlen ?m - 1) < 1 / x" by simp
    then have "2 ^ nat (bitlen ?m - 1) * x < 1" using assms by (simp add: field_simps)
    then have "x < 1 / 2 ^ nat (bitlen ?m - 1)" by (simp add: field_simps)
    moreover have "(2::real) powi (- bitlen ?m + 1) = 1 / 2 ^ nat (bitlen ?m - 1)"
    proof -
      have "- bitlen ?m + 1 = - (bitlen ?m - 1)" by simp
      then have "(2::real) powi (- bitlen ?m + 1) = 2 powi (- (bitlen ?m - 1))" by simp
      also have "\<dots> = 1 / 2 powi (bitlen ?m - 1)" by (rule power_int_minus_divide)
      also have "\<dots> = 1 / 2 ^ nat (bitlen ?m - 1)" using b by (simp add: power_int_def)
      finally show ?thesis .
    qed
    ultimately have "x < 2 powi (ilog2 x + 1)" unfolding i by simp
    then show ?thesis using l by simp
  qed
  then show "2 powi (ilog2 x) \<le> x" and "x < 2 powi (ilog2 x + 1)" by simp_all
qed


lemma ilog2_mono:
  assumes "0 < x" "x \<le> y"
  shows "ilog2 x \<le> ilog2 y"
proof -
  have y: "0 < y" using assms by simp
  have "(2::real) powi (ilog2 x) < 2 powi (ilog2 y + 1)"
    using ilog2_bounds(1)[OF assms(1)] ilog2_bounds(2)[OF y] assms(2) by linarith
  then have "ilog2 x < ilog2 y + 1" by (simp add: two_powi_less_iff)
  then show ?thesis by simp
qed

lemma rne_minus: "rne (- x) = - rne x"
proof (cases "x = of_int \<lfloor>x\<rfloor>")
  case True
  then obtain k where "x = of_int k" by metis
  then show ?thesis by (simp add: rne_def flip: of_int_minus)
next
  case False
  have f: "\<lfloor>- x\<rfloor> = - \<lfloor>x\<rfloor> - 1"
    using False by (simp add: floor_minus ceiling_altdef)
  define n where "n = \<lfloor>x\<rfloor>"
  define r where "r = x - of_int n"
  have r: "0 < r" "r < 1" using False by (simp_all add: r_def n_def; linarith)+
  have x: "x = of_int n + r" by (simp add: r_def)
  have e: "even (- n - 1) \<longleftrightarrow> odd n" by simp
  have a: "rne x = (if r < 1 / 2 then n else if 1 / 2 < r then n + 1 else if even n then n else n + 1)"
    by (simp add: rne_def Let_def n_def r_def)
  have "- x - of_int (- n - 1) = 1 - r" by (simp add: x)
  then have b: "rne (- x) = (if 1 - r < 1 / 2 then - n - 1 else if 1 / 2 < 1 - r then - n
                             else if odd n then - n - 1 else - n)"
    unfolding rne_def Let_def f n_def[symmetric] by (simp only: e) simp
  show ?thesis
    unfolding a b using r by (auto simp: not_less)
qed

lemma rne_nonneg: "0 \<le> x \<Longrightarrow> 0 \<le> rne x"
  using rne_mono[of 0 x] rne_of_int[of 0] by simp

lemma ulp_exponent_mono:
  assumes "0 < x" "x \<le> y"
  shows "ulp_exponent x \<le> ulp_exponent y"
  using ilog2_mono[OF assms] assms by (simp add: ulp_exponent_def)

lemma to_double_zero [simp]: "to_double 0 = 0"
  by (simp add: to_double_def)

lemma to_double_minus: "to_double (- x) = - to_double x"
  by (simp add: to_double_def ulp_exponent_def rne_minus)

lemma to_double_nonneg: "0 \<le> x \<Longrightarrow> 0 \<le> to_double x"
  by (simp add: to_double_def rne_nonneg)

lemma to_double_mono_pos:
  assumes x: "0 < x" and xy: "x \<le> y"
  shows "to_double x \<le> to_double y"
proof -
  have y: "0 < y" using assms by simp
  let ?a = "ulp_exponent x" and ?b = "ulp_exponent y"
  have ab: "?a \<le> ?b" using x xy by (rule ulp_exponent_mono)
  have dx: "to_double x = of_int (rne (x / 2 powi ?a)) * 2 powi ?a"
    using x by (simp add: to_double_def)
  have dy: "to_double y = of_int (rne (y / 2 powi ?b)) * 2 powi ?b"
    using y by (simp add: to_double_def)
  show ?thesis
  proof (cases "?a = ?b")
    case True
    have "x / 2 powi ?b \<le> y / 2 powi ?b" using xy by (simp add: divide_right_mono)
    then have "rne (x / 2 powi ?b) \<le> rne (y / 2 powi ?b)" by (rule rne_mono)
    then have "(of_int (rne (x / 2 powi ?b)) :: real) \<le> of_int (rne (y / 2 powi ?b))"
      by (simp only: of_int_le_iff)
    then show ?thesis unfolding dx dy True by (simp add: mult_right_mono)
  next
    case False
    then have lt: "?a + 1 \<le> ?b" using ab by simp
    then have "- 1074 < ?b" by (simp add: ulp_exponent_def)
    then have b: "?b = ilog2 y - 52" using y by (simp add: ulp_exponent_def)
    have "2 powi (?b + 52) \<le> y" using ilog2_bounds(1)[OF y] b by simp
    then have "2 powi ?b * 2 ^ 52 \<le> y" by (simp add: power_int_add)
    then have "2 ^ 52 \<le> y / 2 powi ?b" by (simp add: field_simps)
    then have "of_int (2 ^ 52) \<le> y / 2 powi ?b" by simp
    then have "rne (of_int (2 ^ 52)) \<le> rne (y / 2 powi ?b)" by (rule rne_mono)
    then have "(2 ^ 52 :: int) \<le> rne (y / 2 powi ?b)" by (simp only: rne_of_int)
    then have "(of_int (2 ^ 52) :: real) \<le> of_int (rne (y / 2 powi ?b))"
      by (simp only: of_int_le_iff)
    then have "of_int (2 ^ 52) * 2 powi ?b \<le> to_double y"
      unfolding dy by (simp add: mult_right_mono)
    then have ly: "2 powi (?b + 52) \<le> to_double y" by (simp add: power_int_add mult.commute)
    have "ilog2 x - 52 \<le> ?a" using x by (simp add: ulp_exponent_def)
    then have "ilog2 x + 1 \<le> ?a + 53" by simp
    then have "(2::real) powi (ilog2 x + 1) \<le> 2 powi (?a + 53)" by (simp add: two_powi_le_iff)
    then have "x \<le> 2 powi (?a + 53)" using ilog2_bounds(2)[OF x] by linarith
    then have "x \<le> 2 powi ?a * 2 ^ 53" by (simp add: power_int_add)
    then have "x / 2 powi ?a \<le> 2 ^ 53" by (simp add: field_simps)
    then have "x / 2 powi ?a \<le> of_int (2 ^ 53)" by simp
    then have "rne (x / 2 powi ?a) \<le> rne (of_int (2 ^ 53))" by (rule rne_mono)
    then have "rne (x / 2 powi ?a) \<le> (2 ^ 53 :: int)" by (simp only: rne_of_int)
    then have "(of_int (rne (x / 2 powi ?a)) :: real) \<le> of_int (2 ^ 53)"
      by (simp only: of_int_le_iff)
    then have "to_double x \<le> of_int (2 ^ 53) * 2 powi ?a"
      unfolding dx by (simp add: mult_right_mono)
    then have lx: "to_double x \<le> 2 powi (?a + 53)" by (simp add: power_int_add mult.commute)
    have "?a + 53 \<le> ?b + 52" using lt by simp
    then have "(2::real) powi (?a + 53) \<le> 2 powi (?b + 52)" by (simp add: two_powi_le_iff)
    then show ?thesis using lx ly by linarith
  qed
qed

lemma to_double_mono:
  assumes "x \<le> y"
  shows "to_double x \<le> to_double y"
proof -
  consider "0 < x" | "x \<le> 0" "0 \<le> y" | "y < 0" by linarith
  then show ?thesis
  proof cases
    case 1
    then show ?thesis using assms by (rule to_double_mono_pos)
  next
    case 2
    have "to_double x \<le> 0" using to_double_nonneg[of "- x"] 2(1) by (simp add: to_double_minus)
    then show ?thesis using to_double_nonneg[OF 2(2)] by linarith
  next
    case 3
    then have "to_double (- y) \<le> to_double (- x)"
      using assms by (intro to_double_mono_pos) simp_all
    then show ?thesis by (simp add: to_double_minus)
  qed
qed



lemma is_double_int_scaled:
  assumes m: "\<bar>m\<bar> < 2 ^ 53" and e: "- 1074 \<le> e"
  shows "is_double (of_int m * 2 powi e)"
proof (cases "m = 0")
  case True
  then show ?thesis by (simp add: is_double_def)
next
  case False
  let ?x = "of_int m * 2 powi e :: real"
  have x0: "?x \<noteq> 0" using False by simp
  have ax: "\<bar>?x\<bar> = of_int \<bar>m\<bar> * 2 powi e" by (simp add: abs_mult)
  have pos: "0 < \<bar>?x\<bar>" using x0 by simp
  have "(of_int \<bar>m\<bar> :: real) < of_int (2 ^ 53)" using m by (simp only: of_int_less_iff)
  then have "\<bar>?x\<bar> < 2 ^ 53 * 2 powi e" unfolding ax by (simp add: mult_strict_right_mono)
  then have "\<bar>?x\<bar> < 2 powi (e + 53)" by (simp add: power_int_add mult.commute)
  then have "(2::real) powi (ilog2 \<bar>?x\<bar>) < 2 powi (e + 53)"
    using ilog2_bounds(1)[OF pos] by linarith
  then have "ilog2 \<bar>?x\<bar> < e + 53" by (simp add: two_powi_less_iff)
  then have le: "ulp_exponent ?x \<le> e" using e by (simp add: ulp_exponent_def)
  define U where "U = ulp_exponent ?x"
  define k where "k = nat (e - U)"
  have ek: "e = U + int k" using le by (simp add: k_def U_def)
  have pe: "(2::real) powi e = 2 powi U * 2 ^ k"
    by (subst ek) (simp add: power_int_add)
  have "of_int m * (2 powi U * 2 ^ k) / 2 powi U = (of_int m * 2 ^ k :: real)" by simp
  also have "\<dots> = of_int (m * 2 ^ k)" by simp
  finally have q: "of_int m * (2 powi U * 2 ^ k) / 2 powi U = (of_int (m * 2 ^ k) :: real)" .
  have "to_double ?x = of_int (rne (?x / 2 powi U)) * 2 powi U"
    using x0 unfolding to_double_def U_def by simp
  also have "?x / 2 powi U = of_int m * (2 powi U * 2 ^ k) / 2 powi U" by (simp only: pe)
  also have "of_int (rne (of_int m * (2 powi U * 2 ^ k) / 2 powi U)) * 2 powi U =
             of_int (m * 2 ^ k) * 2 powi U"
    by (simp only: q rne_of_int)
  also have "\<dots> = (of_int m * (2 powi U * 2 ^ k) :: real)" by simp
  also have "\<dots> = ?x" by (simp only: pe)
  finally show ?thesis by (simp add: is_double_def)
qed

lemma is_double_of_int:
  assumes "\<bar>m\<bar> < 2 ^ 53"
  shows "is_double (of_int m)"
  using is_double_int_scaled[OF assms, of 0] by simp

lemma to_double_le:
  assumes "x \<le> y" "is_double y"
  shows "to_double x \<le> y"
  using to_double_mono[OF assms(1)] assms(2) by (simp add: is_double_def)

lemma to_double_ge:
  assumes "y \<le> x" "is_double y"
  shows "y \<le> to_double x"
  using to_double_mono[OF assms(1)] assms(2) by (simp add: is_double_def)



lemma is_double_examples:
  "is_double 0" "is_double 1" "is_double 999" "is_double 1000" "is_double 2147483647"
  "is_double (1 / 4)" "is_double (1023 / 1024)" "is_double (127875 / 128)"
  "is_double (3377699720527883 / 4503599627370496)"
  by code_simp+

lemma valid_random_examples:
  "valid_random 0" "valid_random (1 / 4)" "valid_random (1023 / 1024)"
  "valid_random (3377699720527883 / 4503599627370496)"
  by (simp_all add: valid_random_def is_double_examples)

section \<open>Properties of the event source\<close>

subsection \<open>Reconnect delay\<close>

lemma Math_pow_0: "Math_pow x 0 = 1"
  using is_double_examples(2) by (simp add: Math_pow_def is_double_def)












subsection \<open>Dispatch of a notification\<close>

lemma handlePlaySessionNotification_object:
  "handlePlaySessionNotification (JObject kvs) ty s =
     Some (s\<lparr>emits := emits s @
        (case map_of kvs ''state'' of
           Some (JString st) \<Rightarrow>
             if st = ''playing'' \<or> st = ''buffering'' then [session_playing (JObject kvs)]
             else if st = ''paused'' then [session_paused (JObject kvs)]
             else if st = ''stopped'' then [session_stopped (JObject kvs)]
             else []
         | _ \<Rightarrow> [])\<rparr>)"
proof (cases "map_of kvs ''state''")
  case None
  then show ?thesis by (simp add: handlePlaySessionNotification_def)
next
  case (Some v)
  then show ?thesis
    by (cases v) (simp_all add: handlePlaySessionNotification_def emit_def)
qed

text \<open>
  C8. For a notification that is an object, \<open>handlePlaySessionNotification\<close> does not throw
  and changes nothing but the log of emitted events, to which it adds exactly one event when
  the member \<open>state\<close> is one of the four known strings and none otherwise:
  \<open>session:playing\<close> for \<open>playing\<close> and for \<open>buffering\<close>, \<open>session:paused\<close> for \<open>paused\<close>,
  \<open>session:stopped\<close> for \<open>stopped\<close>, each carrying the notification.
\<close>

theorem dispatch_by_state:
  "\<exists>s'. handlePlaySessionNotification (JObject kvs) ty s = Some s' \<and>
        s' = s\<lparr>emits := emits s @ emitted_since s s'\<rparr> \<and>
        emitted_since s s' =
          (if map_of kvs ''state'' = Some (JString ''playing'') \<or>
              map_of kvs ''state'' = Some (JString ''buffering'')
           then [session_playing (JObject kvs)]
           else if map_of kvs ''state'' = Some (JString ''paused'')
           then [session_paused (JObject kvs)]
           else if map_of kvs ''state'' = Some (JString ''stopped'')
           then [session_stopped (JObject kvs)]
           else [])"
proof (cases "map_of kvs ''state''")
  case None
  then show ?thesis
    by (simp add: handlePlaySessionNotification_object emitted_since_def)
next
  case (Some v)
  then show ?thesis
    by (cases v) (simp_all add: handlePlaySessionNotification_object emitted_since_def)
qed

subsection \<open>The two wire shapes\<close>

lemma dispatch_data_direct:
  "dispatch_data (JObject [(''PlaySessionStateNotification'', JObject n)]) s =
     the (handlePlaySessionNotification (JObject n) (Some (JString ''playing'')) s)"
  by (simp add: dispatch_data_def handlePlaySessionNotification_object)

lemma dispatch_data_wrapped:
  "dispatch_data (JObject [(''NotificationContainer'',
       JObject [(''type'', t), (''PlaySessionStateNotification'', JObject n)])]) s =
     the (handlePlaySessionNotification (JObject n) (Some t) s)"
  by (simp add: dispatch_data_def dispatch_container_def handlePlaySessionNotification_object)

lemma dispatch_data_wrapped_array:
  "dispatch_data (JObject [(''NotificationContainer'',
       JObject [(''type'', t), (''PlaySessionStateNotification'', JArray [JObject n])])]) s =
     the (handlePlaySessionNotification (JObject n) (Some t) s)"
  by (simp add: dispatch_data_def dispatch_container_def handlePlaySessionNotification_object)

text \<open>
  C4. For every session-state object \<open>n\<close> and every value \<open>t\<close> of the container's member
  \<open>type\<close>, \<open>handleMessage\<close> adds the same events to the log of emitted events whether it
  is given the direct payload \<open>{"PlaySessionStateNotification": n}\<close>, the wrapped payload
  \<open>{"NotificationContainer": {"type": t, "PlaySessionStateNotification": n}}\<close>, or the wrapped
  payload with \<open>n\<close> in a one-element array: the one event that the member \<open>state\<close> of \<open>n\<close>
  selects, carrying \<open>n\<close>, and no event when the member is none of the four known strings.
  The object is left in the same state in the three cases.
\<close>

theorem shape_independence:
  "emits (handleMessage cfg
            (Parsed (JObject [(''PlaySessionStateNotification'', JObject n)])) s) =
     emits s @
       (if map_of n ''state'' = Some (JString ''playing'') \<or>
           map_of n ''state'' = Some (JString ''buffering'')
        then [session_playing (JObject n)]
        else if map_of n ''state'' = Some (JString ''paused'')
        then [session_paused (JObject n)]
        else if map_of n ''state'' = Some (JString ''stopped'')
        then [session_stopped (JObject n)]
        else [])
   \<and>
   emits (handleMessage cfg (Parsed (JObject
       [(''NotificationContainer'',
         JObject [(''type'', t), (''PlaySessionStateNotification'', JObject n)])])) s) =
   emits (handleMessage cfg
            (Parsed (JObject [(''PlaySessionStateNotification'', JObject n)])) s)
   \<and>
   emits (handleMessage cfg (Parsed (JObject
       [(''NotificationContainer'',
         JObject [(''type'', t), (''PlaySessionStateNotification'', JArray [JObject n])])])) s) =
   emits (handleMessage cfg
            (Parsed (JObject [(''PlaySessionStateNotification'', JObject n)])) s)
   \<and>
   handleMessage cfg (Parsed (JObject
       [(''NotificationContainer'',
         JObject [(''type'', t), (''PlaySessionStateNotification'', JObject n)])])) s =
   handleMessage cfg (Parsed (JObject [(''PlaySessionStateNotification'', JObject n)])) s
   \<and>
   handleMessage cfg (Parsed (JObject
       [(''NotificationContainer'',
         JObject [(''type'', t), (''PlaySessionStateNotification'', JArray [JObject n])])])) s =
   handleMessage cfg (Parsed (JObject [(''PlaySessionStateNotification'', JObject n)])) s"
proof -
  let ?direct = "Parsed (JObject [(''PlaySessionStateNotification'', JObject n)])"
  let ?s2 = "resetHeartbeatMonitor cfg (s\<lparr>lastEventTime := Some (clock s)\<rparr>)"
  have same: "handlePlaySessionNotification (JObject n) (Some t) s' =
        handlePlaySessionNotification (JObject n) (Some (JString ''playing'')) s'" for s'
    by (simp add: handlePlaySessionNotification_object)
  have e2: "emits ?s2 = emits s"
    by (simp add: resetHeartbeatMonitor_def setTimeout_def clearTimeout_def Let_def
          split: option.splits)
  have "handleMessage cfg ?direct s =
        the (handlePlaySessionNotification (JObject n) (Some (JString ''playing'')) ?s2)"
    unfolding handleMessage_def Let_def message_data.case dispatch_data_direct by simp
  then have ev: "emits (handleMessage cfg ?direct s) =
     emits s @
       (if map_of n ''state'' = Some (JString ''playing'') \<or>
           map_of n ''state'' = Some (JString ''buffering'')
        then [session_playing (JObject n)]
        else if map_of n ''state'' = Some (JString ''paused'')
        then [session_paused (JObject n)]
        else if map_of n ''state'' = Some (JString ''stopped'')
        then [session_stopped (JObject n)]
        else [])"
  proof (cases "map_of n ''state''")
    case None
    then show ?thesis
      using \<open>handleMessage cfg ?direct s = _\<close>
      by (simp add: handlePlaySessionNotification_object e2)
  next
    case (Some v)
    then show ?thesis
      using \<open>handleMessage cfg ?direct s = _\<close>
      by (cases v) (simp_all add: handlePlaySessionNotification_object e2)
  qed
  have w: "handleMessage cfg (Parsed (JObject
       [(''NotificationContainer'',
         JObject [(''type'', t), (''PlaySessionStateNotification'', JObject n)])])) s =
     handleMessage cfg ?direct s"
    unfolding handleMessage_def Let_def message_data.case
      dispatch_data_direct dispatch_data_wrapped
    by (simp add: same)
  have a: "handleMessage cfg (Parsed (JObject
       [(''NotificationContainer'',
         JObject [(''type'', t), (''PlaySessionStateNotification'', JArray [JObject n])])])) s =
     handleMessage cfg ?direct s"
    unfolding handleMessage_def Let_def message_data.case
      dispatch_data_direct dispatch_data_wrapped_array
    by (simp add: same)
  show ?thesis
    using ev w a by (simp only: simp_thms)
qed

subsection \<open>Malformed messages\<close>

lemma resetHeartbeatMonitor_keeps:
  "emits (resetHeartbeatMonitor cfg s) = emits s"
  "state (resetHeartbeatMonitor cfg s) = state s"
  "eventSource (resetHeartbeatMonitor cfg s) = eventSource s"
  "reconnectAttempts (resetHeartbeatMonitor cfg s) = reconnectAttempts s"
  "reconnectTimer (resetHeartbeatMonitor cfg s) = reconnectTimer s"
  "lastError (resetHeartbeatMonitor cfg s) = lastError s"
  by (simp_all add: resetHeartbeatMonitor_def setTimeout_def clearTimeout_def Let_def
        split: option.splits)

lemma dispatch_container_unrecognised:
  assumes "\<not> container_shape (JObject kvs)"
  shows "dispatch_container (map_of kvs ''NotificationContainer'') s = s"
proof (cases "map_of kvs ''NotificationContainer''")
  case None
  then show ?thesis by (simp add: dispatch_container_def)
next
  case (Some c)
  show ?thesis
  proof (cases c)
    case (JObject ckvs)
    then show ?thesis using assms Some
      by (cases "map_of ckvs ''PlaySessionStateNotification''")
         (simp_all add: dispatch_container_def container_shape_def)
  qed (simp_all add: Some dispatch_container_def)
qed

lemma dispatch_data_unrecognised:
  assumes "\<not> direct_shape d" "\<not> container_shape d"
  shows "dispatch_data d s = s"
proof (cases d)
  case (JObject kvs)
  have c: "dispatch_container (map_of kvs ''NotificationContainer'') s = s"
    using assms(2) unfolding JObject by (rule dispatch_container_unrecognised)
  show ?thesis
  proof (cases "map_of kvs ''PlaySessionStateNotification''")
    case None
    then show ?thesis using c by (simp add: JObject dispatch_data_def)
  next
    case (Some n)
    then obtain c' where "map_of kvs ''NotificationContainer'' = Some c'"
      using assms(1) by (auto simp: JObject direct_shape_def)
    then show ?thesis using Some c by (simp add: JObject dispatch_data_def)
  qed
qed (simp_all add: dispatch_data_def)

text \<open>
  C9. When the data of a message is empty, does not parse, or parses to a value of neither
  wire shape, \<open>handleMessage\<close> returns normally having done only what it does for every
  message (it stamps \<open>lastEventTime\<close> and re-arms the heartbeat timer): nothing is emitted, and
  the connection state, the transport, the attempt counter, the reconnect timer and the last
  error are as before.
\<close>

theorem malformed_message_noop:
  assumes "ev = NoData \<or> ev = Unparseable \<or>
           (\<exists>d. ev = Parsed d \<and> \<not> direct_shape d \<and> \<not> container_shape d)"
  shows "handleMessage cfg ev s = resetHeartbeatMonitor cfg (s\<lparr>lastEventTime := Some (clock s)\<rparr>) \<and>
         emits (handleMessage cfg ev s) = emits s \<and>
         state (handleMessage cfg ev s) = state s \<and>
         eventSource (handleMessage cfg ev s) = eventSource s \<and>
         reconnectAttempts (handleMessage cfg ev s) = reconnectAttempts s \<and>
         reconnectTimer (handleMessage cfg ev s) = reconnectTimer s \<and>
         lastError (handleMessage cfg ev s) = lastError s"
proof -
  have "handleMessage cfg ev s = resetHeartbeatMonitor cfg (s\<lparr>lastEventTime := Some (clock s)\<rparr>)"
    using assms by (auto simp: handleMessage_def Let_def dispatch_data_unrecognised)
  then show ?thesis by (simp add: resetHeartbeatMonitor_keeps)
qed

theorem malformed_message_noop_witness:
  "\<not> direct_shape (JObject [(''NotificationContainer'', JObject [(''type'', JString ''playing'')])]) \<and>
   \<not> container_shape (JObject [(''NotificationContainer'', JObject [(''type'', JString ''playing'')])]) \<and>
   emits (handleMessage example_config
            (Parsed (JObject [(''NotificationContainer'', JObject [(''type'', JString ''playing'')])]))
            (connect example_config None 0 (new_PlexEventSource 0))) =
     [connection_state connecting] \<and>
   state (handleMessage example_config
            (Parsed (JObject [(''NotificationContainer'', JObject [(''type'', JString ''playing'')])]))
            (connect example_config None 0 (new_PlexEventSource 0))) = connecting \<and>
   emits (handleMessage example_config (Parsed (JNumber 5))
            (connect example_config None 0 (new_PlexEventSource 0))) =
     [connection_state connecting] \<and>
   emits (handleMessage example_config Unparseable
            (connect example_config None 0 (new_PlexEventSource 0))) =
     [connection_state connecting]"
proof -
  let ?d = "JObject [(''NotificationContainer'', JObject [(''type'', JString ''playing'')])]"
  let ?s = "connect example_config None 0 (new_PlexEventSource 0)"
  have n: "\<not> direct_shape ?d" "\<not> container_shape ?d"
    by (simp_all add: direct_shape_def container_shape_def)
  have m: "\<not> direct_shape (JNumber 5)" "\<not> container_shape (JNumber 5)"
    by (simp_all add: direct_shape_def container_shape_def)
  have s: "emits ?s = [connection_state connecting]" "state ?s = connecting"
    by (simp_all add: connect_def new_PlexEventSource_def setState_def emit_def clearTimers_def
          Let_def)
  have h1: "Parsed ?d = NoData \<or> Parsed ?d = Unparseable \<or>
      (\<exists>d. Parsed ?d = Parsed d \<and> \<not> direct_shape d \<and> \<not> container_shape d)"
    using n by blast
  have h2: "Parsed (JNumber 5) = NoData \<or> Parsed (JNumber 5) = Unparseable \<or>
      (\<exists>d. Parsed (JNumber 5) = Parsed d \<and> \<not> direct_shape d \<and> \<not> container_shape d)"
    using m by blast
  have h3: "Unparseable = NoData \<or> Unparseable = Unparseable \<or>
      (\<exists>d. Unparseable = Parsed d \<and> \<not> direct_shape d \<and> \<not> container_shape d)"
    by blast
  have "emits (handleMessage example_config (Parsed ?d) ?s) = emits ?s"
       "state (handleMessage example_config (Parsed ?d) ?s) = state ?s"
    using malformed_message_noop[OF h1, of example_config ?s] by blast+
  moreover have "emits (handleMessage example_config (Parsed (JNumber 5)) ?s) = emits ?s"
    using malformed_message_noop[OF h2, of example_config ?s] by blast
  moreover have "emits (handleMessage example_config Unparseable ?s) = emits ?s"
    using malformed_message_noop[OF h3, of example_config ?s] by blast
  ultimately show ?thesis using n s by simp
qed

subsection \<open>State-change notifications\<close>

lemma state_changes_append:
  "state_changes (es @ fs) = state_changes es @ state_changes fs"
  by (induction es rule: state_changes.induct) simp_all

lemma notified_same:
  "notified s \<Longrightarrow> state s' = state s \<Longrightarrow>
   state_changes (emits s') = state_changes (emits s) \<Longrightarrow> notified s'"
  by (simp add: notified_def)

lemma distinct_adj_snoc:
  "distinct_adj l \<Longrightarrow> l \<noteq> [] \<Longrightarrow> last l \<noteq> x \<Longrightarrow> distinct_adj (l @ [x])"
  by (simp add: distinct_adj_append_iff)

lemma notified_setState:
  assumes "notified s" shows "notified (setState x s)"
proof (cases "state s = x")
  case True
  then show ?thesis using assms by (simp add: setState_def)
next
  case False
  let ?l = "disconnected # state_changes (emits s)"
  have l: "distinct_adj ?l" "last ?l = state s"
    using assms by (simp_all add: notified_def)
  have "distinct_adj (?l @ [x])"
    using l(1) by (rule distinct_adj_snoc) (use l(2) False in auto)
  then show ?thesis using False
    by (simp add: notified_def setState_def emit_def state_changes_append)
qed

lemma notified_emit:
  "notified s \<Longrightarrow> state_changes [e] = [] \<Longrightarrow> notified (emit e s)"
  by (simp add: notified_def emit_def state_changes_append)

lemma clearTimers_keeps [simp]:
  "emits (clearTimers s) = emits s" "state (clearTimers s) = state s"
  by (simp_all add: clearTimers_def clearTimeout_def Let_def split: option.splits)

lemma resetHeartbeatMonitor_keeps_log [simp]:
  "emits (resetHeartbeatMonitor cfg s) = emits s"
  "state (resetHeartbeatMonitor cfg s) = state s"
  by (simp_all add: resetHeartbeatMonitor_keeps)

lemma notified_clearTimers: "notified s \<Longrightarrow> notified (clearTimers s)"
  by (erule notified_same) simp_all

lemma notified_resetHeartbeatMonitor: "notified s \<Longrightarrow> notified (resetHeartbeatMonitor cfg s)"
  by (erule notified_same) simp_all

lemma notified_scheduleReconnect:
  assumes "notified s" shows "notified (scheduleReconnect cfg j s)"
proof (cases "MAX_RETRIES cfg \<le> reconnectAttempts s")
  case True
  then show ?thesis using assms by (simp add: scheduleReconnect_def notified_setState)
next
  case False
  have "notified (setState reconnecting s)" using assms by (rule notified_setState)
  then show ?thesis using False
    by (rule_tac notified_same[where s="setState reconnecting s"])
       (simp_all add: scheduleReconnect_def setTimeout_def Let_def)
qed

lemma notified_handleError:
  assumes "notified s" shows "notified (handleError cfg j e s)"
proof -
  let ?s1 = "s\<lparr>lastError := Some (errorMessage e)\<rparr>"
  let ?s2 = "emit (connection_error (errorMessage e)) ?s1"
  have 1: "notified ?s1" using assms by (rule notified_same) simp_all
  have 2: "notified ?s2" using 1 by (rule notified_emit) simp
  have 3: "notified (if eventSource ?s2 then ?s2\<lparr>eventSource := False\<rparr> else ?s2)"
    using 2 by (rule notified_same) simp_all
  show ?thesis unfolding handleError_def Let_def
    using 3 by (rule notified_scheduleReconnect)
qed

lemma notified_connect:
  assumes "notified s" shows "notified (connect cfg ctor j s)"
proof (cases "state s = connected \<or> state s = connecting")
  case True
  then show ?thesis using assms by (simp add: connect_def)
next
  case False
  have 1: "notified (clearTimers (setState connecting s))"
    using assms by (intro notified_clearTimers notified_setState)
  show ?thesis
  proof (cases ctor)
    case None
    have "notified ((clearTimers (setState connecting s))\<lparr>eventSource := True\<rparr>)"
      using 1 by (rule notified_same) simp_all
    then show ?thesis using False None by (simp add: connect_def Let_def)
  next
    case (Some m)
    have "notified (handleError cfg j (ErrorInstance m) (clearTimers (setState connecting s)))"
      using 1 by (rule notified_handleError)
    then show ?thesis using False Some by (simp add: connect_def Let_def)
  qed
qed

lemma notified_onopen:
  assumes "notified s" shows "notified (onopen cfg s)"
proof -
  let ?s1 = "setState connected s"
  have 1: "notified ?s1" using assms by (rule notified_setState)
  have 2: "notified (?s1\<lparr>connectedAt := Some (clock ?s1), reconnectAttempts := 0,
                        lastError := None\<rparr>)"
    using 1 by (rule notified_same) simp_all
  show ?thesis unfolding onopen_def Let_def startHeartbeatMonitor_def
    using 2 by (rule notified_resetHeartbeatMonitor)
qed

lemma notified_disconnect:
  assumes "notified s" shows "notified (disconnect s)"
proof -
  let ?s1 = "clearTimers s"
  let ?s2 = "if eventSource ?s1 then ?s1\<lparr>eventSource := False\<rparr> else ?s1"
  have 1: "notified ?s1" using assms by (rule notified_clearTimers)
  have 2: "notified ?s2" using 1 by (rule notified_same) simp_all
  have 3: "notified (setState disconnected ?s2)" using 2 by (rule notified_setState)
  have "notified ((setState disconnected ?s2)\<lparr>connectedAt := None\<rparr>)"
    using 3 by (rule notified_same) simp_all
  then show ?thesis by (simp add: disconnect_def Let_def)
qed

lemma notified_handlePlaySessionNotification:
  assumes "notified s" "handlePlaySessionNotification n ty s = Some s'"
  shows "notified s'"
proof (cases n)
  case (JObject kvs)
  have "state s' = state s" "state_changes (emits s') = state_changes (emits s)"
    using assms(2) unfolding JObject handlePlaySessionNotification_object
    by (auto simp: state_changes_append split: option.splits json.splits)
  then show ?thesis using assms(1) by (simp add: notified_def)
qed (use assms in \<open>simp_all add: handlePlaySessionNotification_def\<close>)

lemma notified_dispatch_notifications:
  "notified s \<Longrightarrow> notified (dispatch_notifications ns ty s)"
  by (induction ns arbitrary: s)
     (auto split: option.splits dest: notified_handlePlaySessionNotification)

lemma notified_dispatch_container:
  "notified s \<Longrightarrow> notified (dispatch_container c s)"
  by (auto simp: dispatch_container_def notified_dispatch_notifications
           split: option.splits json.splits)

lemma notified_dispatch_data:
  "notified s \<Longrightarrow> notified (dispatch_data d s)"
  by (auto simp: dispatch_data_def notified_dispatch_container
           split: option.splits json.splits dest: notified_handlePlaySessionNotification)

lemma notified_handleMessage:
  assumes "notified s" shows "notified (handleMessage cfg d s)"
proof -
  have 1: "notified (s\<lparr>lastEventTime := Some (clock s)\<rparr>)"
    using assms by (rule notified_same) simp_all
  have 2: "notified (resetHeartbeatMonitor cfg (s\<lparr>lastEventTime := Some (clock s)\<rparr>))"
    using 1 by (rule notified_resetHeartbeatMonitor)
  show ?thesis using 2
    by (cases d) (simp_all add: handleMessage_def Let_def notified_dispatch_data)
qed

lemma notified_step:
  assumes "notified s" "step cfg ev s = Some s'" shows "notified s'"
proof (cases ev)
  case (Connect ctor j)
  then show ?thesis using assms by (auto simp: step_def notified_connect split: if_splits)
next
  case Disconnect
  then show ?thesis using assms by (auto simp: step_def notified_disconnect)
next
  case Open
  then show ?thesis using assms by (auto simp: step_def notified_onopen split: if_splits)
next
  case (Message d)
  then show ?thesis using assms by (auto simp: step_def notified_handleMessage split: if_splits)
next
  case (TransportError e j)
  then show ?thesis using assms by (auto simp: step_def notified_handleError split: if_splits)
next
  case (Elapse d)
  have "notified (s\<lparr>clock := clock s + d\<rparr>)" using assms(1) by (rule notified_same) simp_all
  then show ?thesis using assms Elapse by (auto simp: step_def split: if_splits)
next
  case (Fire ctor j)
  then obtain t where t: "earliest (pending s) = Some t" and j: "valid_random j"
    and s': "s' = run_callback cfg ctor j (timer_callback t)
                (s\<lparr>pending := filter (\<lambda>u. timer_handle u \<noteq> timer_handle t) (pending s),
                   clock := max (clock s) (timer_due t)\<rparr>)"
    using assms(2) by (auto simp: step_def split: option.splits if_splits)
  have "notified (s\<lparr>pending := filter (\<lambda>u. timer_handle u \<noteq> timer_handle t) (pending s),
                   clock := max (clock s) (timer_due t)\<rparr>)"
    using assms(1) by (rule notified_same) simp_all
  then show ?thesis unfolding s'
    by (cases "timer_callback t")
       (simp_all add: run_callback_def notified_connect notified_handleError)
qed

lemma notified_run:
  "notified s \<Longrightarrow> run cfg evs s = Some s' \<Longrightarrow> notified s'"
  by (induction evs arbitrary: s) (auto split: option.splits dest: notified_step)

lemma notified_new: "notified (new_PlexEventSource t)"
  by (simp add: notified_def new_PlexEventSource_def)

lemma disconnect_twice: "disconnect (disconnect s) = disconnect s"
proof -
  have c: "reconnectTimer (clearTimers s) = None" "heartbeatTimer (clearTimers s) = None" for s
    by (simp_all add: clearTimers_def clearTimeout_def Let_def split: option.splits)
  have d: "reconnectTimer (disconnect s) = None" "heartbeatTimer (disconnect s) = None"
          "\<not> eventSource (disconnect s)" "state (disconnect s) = disconnected"
          "connectedAt (disconnect s) = None"
    using c[of s] by (simp_all add: disconnect_def Let_def setState_def emit_def)
  have "clearTimers (disconnect s) = disconnect s"
    using d(1,2) by (simp add: clearTimers_def)
  then show ?thesis
    using d(3,4,5) by (simp add: disconnect_def[of "disconnect s"] Let_def setState_def)
qed

text \<open>
  C10. \<open>setState\<close> emits a \<open>connection:state\<close> event exactly when the state it is given
  differs from the current one, and then one event naming the new state; it always leaves
  the object in the state given. A second \<open>disconnect\<close> changes nothing and emits nothing,
  and so does \<open>connect\<close> on an object that is connecting or connected. After any sequence of
  events from the creation of the object on, the announcements in the log are exactly the
  changes of state: no two consecutive ones name the same state and the last names the
  current state.
\<close>

theorem state_notification_iff_change:
  "emitted_since s (setState x s) = (if state s \<noteq> x then [connection_state x] else []) \<and>
   state (setState x s) = x \<and>
   disconnect (disconnect s) = disconnect s \<and>
   emitted_since (disconnect s) (disconnect (disconnect s)) = [] \<and>
   (state s = connected \<or> state s = connecting \<longrightarrow> connect cfg ctor j s = s) \<and>
   (run cfg evs (new_PlexEventSource t) = Some s' \<longrightarrow>
      distinct_adj (disconnected # state_changes (emits s')) \<and>
      last (disconnected # state_changes (emits s')) = state s')"
proof -
  have 1: "emitted_since s (setState x s) = (if state s \<noteq> x then [connection_state x] else [])"
    by (simp add: emitted_since_def setState_def emit_def)
  have 2: "state (setState x s) = x"
    by (simp add: setState_def emit_def)
  have 3: "emitted_since (disconnect s) (disconnect (disconnect s)) = []"
    by (simp add: disconnect_twice emitted_since_def)
  have 4: "state s = connected \<or> state s = connecting \<longrightarrow> connect cfg ctor j s = s"
    by (simp add: connect_def)
  have 5: "notified s'" if "run cfg evs (new_PlexEventSource t) = Some s'"
    using notified_new that by (rule notified_run)
  show ?thesis using 1 2 3 4 5 disconnect_twice by (simp add: notified_def)
qed

theorem state_notification_iff_change_witness:
  "run example_config [Connect None 0, Connect None 0, Open, Disconnect, Disconnect]
     (new_PlexEventSource 0) =
     Some (disconnect (disconnect (onopen example_config
       (connect example_config None 0 (connect example_config None 0 (new_PlexEventSource 0)))))) \<and>
   state (connect example_config None 0 (new_PlexEventSource 0)) = connecting \<and>
   connect example_config None 0 (connect example_config None 0 (new_PlexEventSource 0)) =
     connect example_config None 0 (new_PlexEventSource 0) \<and>
   state_changes (emits (disconnect (disconnect (onopen example_config
       (connect example_config None 0 (connect example_config None 0 (new_PlexEventSource 0))))))) =
     [connecting, connected, disconnected]"
proof -
  let ?s1 = "connect example_config None 0 (new_PlexEventSource 0)"
  let ?s3 = "onopen example_config ?s1"
  have c: "state ?s1 = connecting" "eventSource ?s1"
    by (simp_all add: connect_def new_PlexEventSource_def setState_def emit_def Let_def)
  have i: "connect example_config None 0 ?s1 = ?s1"
    using state_notification_iff_change[of ?s1 connecting example_config None 0 "[]" 0 ?s1] c(1)
    by blast
  have d: "disconnect (disconnect ?s3) = disconnect ?s3"
    using state_notification_iff_change[of ?s3 connecting example_config None 0 "[]" 0 ?s3]
    by blast
  have o: "eventSource ?s3"
    using c(2) by (simp add: onopen_def startHeartbeatMonitor_def resetHeartbeatMonitor_keeps
                     setState_def emit_def Let_def)
  have r: "run example_config [Connect None 0, Connect None 0, Open, Disconnect, Disconnect]
             (new_PlexEventSource 0) = Some (disconnect (disconnect ?s3))"
    using c(2) o by (simp add: step_def valid_random_examples i)
  have e: "state_changes (emits (disconnect ?s3)) = [connecting, connected, disconnected]"
    by (simp add: disconnect_def onopen_def startHeartbeatMonitor_def connect_def
          new_PlexEventSource_def setState_def emit_def Let_def)
  show ?thesis using c(1) i r e by (simp add: d)
qed

subsection \<open>Reconnect timers\<close>

lemmas method_defs =
  step_def connect_def disconnect_def onopen_def handleError_def handleMessage_def
  scheduleReconnect_def startHeartbeatMonitor_def resetHeartbeatMonitor_def clearTimers_def
  setState_def emit_def setTimeout_def clearTimeout_def run_callback_def errorMessage_def
  valid_random_examples Let_def

lemma run_append:
  "run cfg (es @ fs) s = (case run cfg es s of None \<Rightarrow> None | Some s' \<Rightarrow> run cfg fs s')"
  by (induction es arbitrary: s) (simp_all split: option.splits)

text \<open>
  What \<open>scheduleReconnect\<close> does once the attempts are used up: it moves to \<open>fallback\<close> and
  returns. It sets no timer, and it clears none.
\<close>

lemma scheduleReconnect_exhausted:
  assumes "MAX_RETRIES cfg \<le> reconnectAttempts s"
  shows "scheduleReconnect cfg j s = setState fallback s"
    and "state (scheduleReconnect cfg j s) = fallback"
    and "pending (scheduleReconnect cfg j s) = pending s"
    and "reconnectTimer (scheduleReconnect cfg j s) = reconnectTimer s"
    and "reconnectAttempts (scheduleReconnect cfg j s) = reconnectAttempts s"
  using assms by (simp_all add: scheduleReconnect_def setState_def emit_def)

text \<open>
  With no transport object and no reconnect timer pending, an object in \<open>fallback\<close> whose
  attempts are used up stays there: the only timer that can fire is the heartbeat timer,
  whose callback ends in \<open>scheduleReconnect\<close> again.
\<close>

lemma earliest_in: "earliest ts = Some t \<Longrightarrow> t \<in> set ts"
  by (induction ts arbitrary: t) (auto split: option.splits if_splits)

lemma fallback_stays_without_reconnect_timer:
  assumes "state s = fallback" "MAX_RETRIES cfg \<le> reconnectAttempts s"
      and "reconnect_timers s = []" "\<not> eventSource s"
      and "step cfg (Fire ctor j) s = Some s'"
  shows "state s' = fallback \<and> MAX_RETRIES cfg \<le> reconnectAttempts s' \<and>
         reconnect_timers s' = [] \<and> \<not> eventSource s'"
proof -
  obtain t where t: "earliest (pending s) = Some t"
    and s': "s' = run_callback cfg ctor j (timer_callback t)
                (s\<lparr>pending := filter (\<lambda>u. timer_handle u \<noteq> timer_handle t) (pending s),
                   clock := max (clock s) (timer_due t)\<rparr>)"
    using assms(5) by (auto simp: step_def split: option.splits if_splits)
  have "t \<in> set (pending s)" using t by (rule earliest_in)
  then have h: "timer_callback t = HeartbeatCallback"
    using assms(3) by (cases "timer_callback t") (auto simp: reconnect_timers_def filter_empty_conv)
  have f: "filter (\<lambda>t. timer_callback t = ReconnectCallback)
             (filter (\<lambda>u. timer_handle u \<noteq> timer_handle t) (pending s)) = []"
    using assms(3) by (auto simp: reconnect_timers_def filter_empty_conv)
  show ?thesis
    unfolding s' h using assms(1,2,4) f
    by (simp add: run_callback_def handleError_def scheduleReconnect_def setState_def emit_def
          reconnect_timers_def Let_def)
qed

text \<open>
  The first four events of \<open>late_error_trace\<close>: the error has set the first reconnect timer,
  and the heartbeat timer is still armed.
\<close>

text \<open>
  The first reconnect timer is due at least 999 ms after it is set, whatever the constants,
  provided the delays are not negative and the maximal delay with its jitter is one that
  \<open>setTimeout\<close> accepts.
\<close>

lemma first_delay_bounds:
  assumes "0 \<le> INITIAL_RETRY_DELAY_MS cfg" "0 \<le> MAX_RETRY_DELAY_MS cfg"
    "MAX_RETRY_DELAY_MS cfg \<le> 2147482647"
  shows "999 \<le> timeout_ms (delay cfg 1 (1023 / 1024))"
proof -
  let ?x = "baseDelay cfg 1 + jitter (1023 / 1024)"
  have j: "jitter (1023 / 1024) = 127875 / 128" by code_simp
  have "0 \<le> to_double (INITIAL_RETRY_DELAY_MS cfg * Math_pow (RETRY_MULTIPLIER cfg) 0)"
    using assms(1) by (intro to_double_nonneg) (simp add: Math_pow_0)
  then have b: "0 \<le> baseDelay cfg 1" "baseDelay cfg 1 \<le> 2147482647"
    using assms(2,3) by (simp_all add: baseDelay_def min_le_iff_disj)
  have "999 \<le> ?x" "?x \<le> 2147483647" using b by (simp_all add: j)
  then have "999 \<le> to_double ?x" "to_double ?x \<le> 2147483647"
    using is_double_examples(3,5) by (auto intro: to_double_ge to_double_le)
  then show ?thesis
    by (simp add: delay_def timeout_ms_def le_floor_iff)
qed

lemma error_before_heartbeat:
  assumes m: "1 \<le> MAX_RETRIES cfg"
      and d: "0 \<le> d" "d \<le> timeout_ms (HEARTBEAT_TIMEOUT_MS cfg)"
  shows "run cfg [Connect None 0, Open, Elapse d, TransportError OtherValue (1023 / 1024)]
           (new_PlexEventSource 0) =
     Some \<lparr> eventSource = False, state = reconnecting, reconnectAttempts = 1,
            reconnectTimer = Some 1, heartbeatTimer = Some 0, lastEventTime = None,
            connectedAt = Some 0, lastError = Some ''Connection error'',
            pending =
              [\<lparr>timer_handle = 0, timer_callback = HeartbeatCallback,
                timer_due = timeout_ms (HEARTBEAT_TIMEOUT_MS cfg)\<rparr>,
               \<lparr>timer_handle = 1, timer_callback = ReconnectCallback,
                timer_due = d + timeout_ms (delay cfg 1 (1023 / 1024))\<rparr>],
            nextTimer = 2, clock = d,
            emits = [connection_state connecting, connection_state connected,
                     connection_error ''Connection error'', connection_state reconnecting] \<rparr>"
proof -
  have m': "\<not> MAX_RETRIES cfg \<le> 0" using m by simp
  show ?thesis
    using d m' by (simp add: new_PlexEventSource_def method_defs)
qed

text \<open>The heartbeat timer fires before the reconnect timer and sets a second one.\<close>

lemma late_error_run:
  assumes m: "2 \<le> MAX_RETRIES cfg"
      and d: "0 \<le> d" "d \<le> timeout_ms (HEARTBEAT_TIMEOUT_MS cfg)"
             "timeout_ms (HEARTBEAT_TIMEOUT_MS cfg) \<le> d + 999"
      and c: "0 \<le> INITIAL_RETRY_DELAY_MS cfg" "0 \<le> MAX_RETRY_DELAY_MS cfg"
             "MAX_RETRY_DELAY_MS cfg \<le> 2147482647"
  shows "run cfg (late_error_trace d) (new_PlexEventSource 0) =
     Some \<lparr> eventSource = False, state = reconnecting, reconnectAttempts = 2,
            reconnectTimer = Some 2, heartbeatTimer = Some 0, lastEventTime = None,
            connectedAt = Some 0, lastError = Some ''Heartbeat timeout'',
            pending =
              [\<lparr>timer_handle = 1, timer_callback = ReconnectCallback,
                timer_due = d + timeout_ms (delay cfg 1 (1023 / 1024))\<rparr>,
               \<lparr>timer_handle = 2, timer_callback = ReconnectCallback,
                timer_due = timeout_ms (HEARTBEAT_TIMEOUT_MS cfg) + timeout_ms (delay cfg 2 0)\<rparr>],
            nextTimer = 3, clock = timeout_ms (HEARTBEAT_TIMEOUT_MS cfg),
            emits = [connection_state connecting, connection_state connected,
                     connection_error ''Connection error'', connection_state reconnecting,
                     connection_error ''Heartbeat timeout''] \<rparr>"
proof -
  have b: "999 \<le> timeout_ms (delay cfg 1 (1023 / 1024))" using c by (rule first_delay_bounds)
  have m1: "1 \<le> MAX_RETRIES cfg" using m by simp
  have m': "\<not> MAX_RETRIES cfg \<le> Suc 0" using m by simp
  have e: "\<not> d + timeout_ms (delay cfg 1 (1023 / 1024)) < timeout_ms (HEARTBEAT_TIMEOUT_MS cfg)"
    using b d by simp
  have l: "late_error_trace d =
             [Connect None 0, Open, Elapse d, TransportError OtherValue (1023 / 1024)] @
             [Fire None 0]"
    by (simp add: late_error_trace_def)
  show ?thesis
    unfolding l run_append error_before_heartbeat[OF m1 d(1,2)]
    using d m' e by (simp add: method_defs max_def numeral_2_eq_2)
qed

text \<open>With a single attempt allowed, the heartbeat timer's callback enters \<open>fallback\<close>.\<close>

lemma late_error_run_single_retry:
  assumes m: "MAX_RETRIES cfg = 1"
      and d: "0 \<le> d" "d \<le> timeout_ms (HEARTBEAT_TIMEOUT_MS cfg)"
             "timeout_ms (HEARTBEAT_TIMEOUT_MS cfg) \<le> d + 999"
      and c: "0 \<le> INITIAL_RETRY_DELAY_MS cfg" "0 \<le> MAX_RETRY_DELAY_MS cfg"
             "MAX_RETRY_DELAY_MS cfg \<le> 2147482647"
  shows "run cfg (late_error_trace d) (new_PlexEventSource 0) =
     Some \<lparr> eventSource = False, state = fallback, reconnectAttempts = 1,
            reconnectTimer = Some 1, heartbeatTimer = Some 0, lastEventTime = None,
            connectedAt = Some 0, lastError = Some ''Heartbeat timeout'',
            pending =
              [\<lparr>timer_handle = 1, timer_callback = ReconnectCallback,
                timer_due = d + timeout_ms (delay cfg 1 (1023 / 1024))\<rparr>],
            nextTimer = 2, clock = timeout_ms (HEARTBEAT_TIMEOUT_MS cfg),
            emits = [connection_state connecting, connection_state connected,
                     connection_error ''Connection error'', connection_state reconnecting,
                     connection_error ''Heartbeat timeout'', connection_state fallback] \<rparr>"
proof -
  have b: "999 \<le> timeout_ms (delay cfg 1 (1023 / 1024))" using c by (rule first_delay_bounds)
  have m1: "1 \<le> MAX_RETRIES cfg" using m by simp
  have e: "\<not> d + timeout_ms (delay cfg 1 (1023 / 1024)) < timeout_ms (HEARTBEAT_TIMEOUT_MS cfg)"
    using b d by simp
  have l: "late_error_trace d =
             [Connect None 0, Open, Elapse d, TransportError OtherValue (1023 / 1024)] @
             [Fire None 0]"
    by (simp add: late_error_trace_def)
  show ?thesis
    unfolding l run_append error_before_heartbeat[OF m1 d(1,2)]
    using d m e by (simp add: method_defs max_def)
qed

text \<open>
  One more call of \<open>connect\<close> that fails at once: \<open>clearTimers\<close> clears the timer the field
  refers to, the stale timer stays pending, and the error either sets the next reconnect
  timer or, with the attempts used up, enters \<open>fallback\<close>.
\<close>

lemma failed_connect:
  assumes "retrying r a s"
  shows "\<exists>s'. run cfg [Connect None 0, TransportError OtherValue 0] s = Some s' \<and>
              (if MAX_RETRIES cfg \<le> a then given_up cfg r s' else retrying r (Suc a) s')"
proof -
  obtain x where x: "pending s = [r, x]" "reconnectTimer s = Some (timer_handle x)"
    and s: "\<not> eventSource s" "state s = reconnecting" "reconnectAttempts s = a"
    and r: "timer_callback r = ReconnectCallback" "timer_handle x \<noteq> timer_handle r"
           "heartbeatTimer s \<noteq> Some (timer_handle r)" "timer_handle r < nextTimer s"
    using assms by (auto simp: retrying_def stale_def)
  let ?s1 = "connect cfg None 0 s"
  have c: "eventSource ?s1" "state ?s1 = connecting" "reconnectAttempts ?s1 = a"
          "pending ?s1 = [r]" "reconnectTimer ?s1 = None" "heartbeatTimer ?s1 = None"
          "nextTimer ?s1 = nextTimer s"
    using x s r
    by (auto simp: connect_def clearTimers_def clearTimeout_def setState_def emit_def Let_def
             split: option.splits)
  let ?s2 = "handleError cfg 0 OtherValue ?s1"
  have run: "run cfg [Connect None 0, TransportError OtherValue 0] s = Some ?s2"
    using c(1) by (simp add: step_def valid_random_examples)
  show ?thesis
  proof (cases "MAX_RETRIES cfg \<le> a")
    case True
    have "given_up cfg r ?s2"
      using True c r(1)
      by (simp add: given_up_def handleError_def scheduleReconnect_def setState_def emit_def
            Let_def)
    then show ?thesis using run True by simp
  next
    case False
    have "retrying r (Suc a) ?s2"
      using False c r(1,4)
      by (simp add: retrying_def stale_def handleError_def scheduleReconnect_def setState_def
            emit_def setTimeout_def Let_def)
    then show ?thesis using run False by simp
  qed
qed

lemma failed_connects:
  assumes "retrying r a s" "a \<le> MAX_RETRIES cfg" "k = MAX_RETRIES cfg - a"
  shows "\<exists>s'. run cfg (concat (replicate (Suc k) [Connect None 0, TransportError OtherValue 0])) s
                = Some s' \<and> given_up cfg r s'"
  using assms
proof (induction k arbitrary: a s)
  case 0
  then have "MAX_RETRIES cfg \<le> a" by simp
  then show ?case using failed_connect[OF "0.prems"(1), of cfg] by simp
next
  case (Suc k)
  then have lt: "\<not> MAX_RETRIES cfg \<le> a" by simp
  obtain s1 where s1: "run cfg [Connect None 0, TransportError OtherValue 0] s = Some s1"
      "retrying r (Suc a) s1"
    using failed_connect[OF Suc.prems(1), of cfg] lt by auto
  have "\<exists>s'. run cfg (concat (replicate (Suc k) [Connect None 0, TransportError OtherValue 0])) s1
                = Some s' \<and> given_up cfg r s'"
    using s1(2) by (rule Suc.IH) (use Suc.prems in simp_all)
  then obtain s' where
    s': "run cfg (concat (replicate (Suc k) [Connect None 0, TransportError OtherValue 0])) s1
           = Some s'"
        "given_up cfg r s'"
    by blast
  have "run cfg (concat (replicate (Suc (Suc k)) [Connect None 0, TransportError OtherValue 0])) s
        = run cfg ([Connect None 0, TransportError OtherValue 0] @
             concat (replicate (Suc k) [Connect None 0, TransportError OtherValue 0])) s"
    by simp
  also have "\<dots> = Some s'"
    unfolding run_append s1(1) using s'(1) by simp
  finally show ?case using s'(2) by blast
qed

text \<open>In \<open>fallback\<close> with a reconnect timer pending, the timer fires and \<open>connect\<close> runs.\<close>

lemma given_up_fire:
  assumes "given_up cfg r s"
  shows "\<exists>s'. step cfg (Fire None 0) s = Some s' \<and> state s' = connecting \<and> eventSource s'"
  using assms
  by (auto simp: given_up_def step_def valid_random_examples run_callback_def connect_def
        setState_def emit_def clearTimers_def clearTimeout_def Let_def split: option.splits)

lemma exhausted_run:
  assumes m: "1 \<le> MAX_RETRIES cfg"
      and d: "0 \<le> d" "d \<le> timeout_ms (HEARTBEAT_TIMEOUT_MS cfg)"
             "timeout_ms (HEARTBEAT_TIMEOUT_MS cfg) \<le> d + 999"
      and c: "0 \<le> INITIAL_RETRY_DELAY_MS cfg" "0 \<le> MAX_RETRY_DELAY_MS cfg"
             "MAX_RETRY_DELAY_MS cfg \<le> 2147482647"
  shows "\<exists>s. run cfg (exhausted_trace cfg d) (new_PlexEventSource 0) = Some s \<and>
             given_up cfg \<lparr>timer_handle = 1, timer_callback = ReconnectCallback,
                           timer_due = d + timeout_ms (delay cfg 1 (1023 / 1024))\<rparr> s"
proof (cases "MAX_RETRIES cfg = 1")
  case True
  show ?thesis
    unfolding exhausted_trace_def run_append late_error_run_single_retry[OF True d c]
    by (simp add: True given_up_def)
next
  case False
  then have m2: "2 \<le> MAX_RETRIES cfg" using m by simp
  let ?r = "\<lparr>timer_handle = 1, timer_callback = ReconnectCallback,
             timer_due = d + timeout_ms (delay cfg 1 (1023 / 1024))\<rparr>"
  let ?s = "\<lparr> eventSource = False, state = reconnecting, reconnectAttempts = 2,
            reconnectTimer = Some 2, heartbeatTimer = Some 0, lastEventTime = None,
            connectedAt = Some 0, lastError = Some ''Heartbeat timeout'',
            pending =
              [?r,
               \<lparr>timer_handle = 2, timer_callback = ReconnectCallback,
                timer_due = timeout_ms (HEARTBEAT_TIMEOUT_MS cfg) + timeout_ms (delay cfg 2 0)\<rparr>],
            nextTimer = 3, clock = timeout_ms (HEARTBEAT_TIMEOUT_MS cfg),
            emits = [connection_state connecting, connection_state connected,
                     connection_error ''Connection error'', connection_state reconnecting,
                     connection_error ''Heartbeat timeout''] \<rparr>"
  have q: "retrying ?r 2 ?s" by (simp add: retrying_def stale_def)
  have k: "MAX_RETRIES cfg - 1 = Suc (MAX_RETRIES cfg - 2)" using m2 by simp
  show ?thesis
    unfolding exhausted_trace_def run_append late_error_run[OF m2 d c] k
    using failed_connects[OF q m2 refl] by simp
qed

text \<open>
  With the example constants and the nine calls 50 ms apart, the object is in \<open>fallback\<close> at
  30.45 s, more than a second before the stale timer is due.
\<close>

lemma spaced_exhausted_run:
  "map_option (\<lambda>s. (state s, reconnectAttempts s, clock s, reconnectTimer s, reconnect_timers s))
     (run example_config (spaced_exhausted_trace 29500) (new_PlexEventSource 0)) =
   Some (fallback, 10, 30450, None,
         [\<lparr>timer_handle = 1, timer_callback = ReconnectCallback, timer_due = 31499\<rparr>])"
  by code_simp

lemma example_timeouts:
  "timeout_ms (HEARTBEAT_TIMEOUT_MS example_config) = 30000"
  "timeout_ms (HEARTBEAT_TIMEOUT_MS single_retry_config) = 30000"
  "timeout_ms (delay example_config 1 (1023 / 1024)) = 1999"
  "timeout_ms (delay single_retry_config 1 (1023 / 1024)) = 1999"
  "timeout_ms (delay example_config 2 0) = 2000"
  by code_simp+

text \<open>
  C7. The claim does not hold of the code. \<open>handleError\<close> leaves the heartbeat timer armed,
  and \<open>scheduleReconnect\<close> overwrites the field \<open>reconnectTimer\<close> without clearing the timer
  it held. Whatever the constants, provided two attempts are allowed, the two delays are
  not negative and the maximal delay with its jitter is one that \<open>setTimeout\<close> accepts: when
  the transport fails less than 999 ms before the heartbeat timer is due, a reconnect timer
  is set; the heartbeat timer, still pending, fires first, and its callback sets a second
  reconnect timer. Both are pending, and the field holds the handle of the second only.
\<close>

theorem two_reconnect_timers_pending:
  assumes "2 \<le> MAX_RETRIES cfg"
      and "0 \<le> d" "d \<le> timeout_ms (HEARTBEAT_TIMEOUT_MS cfg)"
          "timeout_ms (HEARTBEAT_TIMEOUT_MS cfg) \<le> d + 999"
      and "0 \<le> INITIAL_RETRY_DELAY_MS cfg" "0 \<le> MAX_RETRY_DELAY_MS cfg"
          "MAX_RETRY_DELAY_MS cfg \<le> 2147482647"
  shows "\<exists>s. run cfg (late_error_trace d) (new_PlexEventSource 0) = Some s \<and>
             state s = reconnecting \<and> clock s = timeout_ms (HEARTBEAT_TIMEOUT_MS cfg) \<and>
             reconnectTimer s = Some 2 \<and>
             reconnect_timers s =
               [\<lparr>timer_handle = 1, timer_callback = ReconnectCallback,
                 timer_due = d + timeout_ms (delay cfg 1 (1023 / 1024))\<rparr>,
                \<lparr>timer_handle = 2, timer_callback = ReconnectCallback,
                 timer_due = timeout_ms (HEARTBEAT_TIMEOUT_MS cfg) + timeout_ms (delay cfg 2 0)\<rparr>] \<and>
             stale \<lparr>timer_handle = 1, timer_callback = ReconnectCallback,
                     timer_due = d + timeout_ms (delay cfg 1 (1023 / 1024))\<rparr> s"
  unfolding late_error_run[OF assms]
  by (simp add: reconnect_timers_def stale_def)

theorem two_reconnect_timers_pending_witness:
  "2 \<le> MAX_RETRIES example_config \<and> HEARTBEAT_TIMEOUT_MS example_config = 30000 \<and>
   map_option (\<lambda>s. (state s, clock s, reconnectTimer s, reconnect_timers s))
     (run example_config (late_error_trace 29500) (new_PlexEventSource 0)) =
   Some (reconnecting, 30000, Some 2,
         [\<lparr>timer_handle = 1, timer_callback = ReconnectCallback, timer_due = 31499\<rparr>,
          \<lparr>timer_handle = 2, timer_callback = ReconnectCallback, timer_due = 32000\<rparr>])"
proof -
  note v = example_timeouts
  have h: "2 \<le> MAX_RETRIES example_config" "(0::real) \<le> 29500"
    "29500 \<le> timeout_ms (HEARTBEAT_TIMEOUT_MS example_config)"
    "timeout_ms (HEARTBEAT_TIMEOUT_MS example_config) \<le> 29500 + 999"
    "0 \<le> INITIAL_RETRY_DELAY_MS example_config" "0 \<le> MAX_RETRY_DELAY_MS example_config"
    "MAX_RETRY_DELAY_MS example_config \<le> 2147482647"
    unfolding v by (simp_all add: example_config_def)
  have hb: "HEARTBEAT_TIMEOUT_MS example_config = 30000" by (simp add: example_config_def)
  from two_reconnect_timers_pending[OF h] obtain s where
    "run example_config (late_error_trace 29500) (new_PlexEventSource 0) = Some s"
    "state s = reconnecting" "clock s = timeout_ms (HEARTBEAT_TIMEOUT_MS example_config)"
    "reconnectTimer s = Some 2"
    "reconnect_timers s =
       [\<lparr>timer_handle = 1, timer_callback = ReconnectCallback,
         timer_due = 29500 + timeout_ms (delay example_config 1 (1023 / 1024))\<rparr>,
        \<lparr>timer_handle = 2, timer_callback = ReconnectCallback,
         timer_due = timeout_ms (HEARTBEAT_TIMEOUT_MS example_config) +
                     timeout_ms (delay example_config 2 0)\<rparr>]"
    by blast
  then show ?thesis using h(1) hb unfolding v by simp
qed

text \<open>
  C3. The first half of the claim holds (\<open>scheduleReconnect_exhausted\<close>); the second does
  not hold of the code. The branch that enters \<open>fallback\<close> clears no timer, and \<open>connect\<close>
  returns early only in the states \<open>connected\<close> and \<open>connecting\<close>. Whatever the constants,
  provided one attempt is allowed, the two delays are not negative and the maximal delay
  with its jitter is one that \<open>setTimeout\<close> accepts: in the run \<open>exhausted_trace\<close> the object
  enters \<open>fallback\<close> with its attempts used up while the reconnect timer set by the first
  error is still pending; when that timer fires, its callback calls \<open>connect\<close>, and the
  object leaves \<open>fallback\<close> and opens a new transport.
\<close>

theorem fallback_left_by_pending_timer:
  assumes "1 \<le> MAX_RETRIES cfg"
      and "0 \<le> d" "d \<le> timeout_ms (HEARTBEAT_TIMEOUT_MS cfg)"
          "timeout_ms (HEARTBEAT_TIMEOUT_MS cfg) \<le> d + 999"
      and "0 \<le> INITIAL_RETRY_DELAY_MS cfg" "0 \<le> MAX_RETRY_DELAY_MS cfg"
          "MAX_RETRY_DELAY_MS cfg \<le> 2147482647"
  shows "\<exists>s s'. run cfg (exhausted_trace cfg d) (new_PlexEventSource 0) = Some s \<and>
           state s = fallback \<and> MAX_RETRIES cfg \<le> reconnectAttempts s \<and> \<not> eventSource s \<and>
           pending s = [\<lparr>timer_handle = 1, timer_callback = ReconnectCallback,
                         timer_due = d + timeout_ms (delay cfg 1 (1023 / 1024))\<rparr>] \<and>
           step cfg (Fire None 0) s = Some s' \<and> state s' = connecting \<and> eventSource s'"
proof -
  let ?r = "\<lparr>timer_handle = 1, timer_callback = ReconnectCallback,
             timer_due = d + timeout_ms (delay cfg 1 (1023 / 1024))\<rparr>"
  obtain s where s: "run cfg (exhausted_trace cfg d) (new_PlexEventSource 0) = Some s"
    "given_up cfg ?r s"
    using exhausted_run[OF assms] by blast
  from given_up_fire[OF s(2)] obtain s' where
    "step cfg (Fire None 0) s = Some s'" "state s' = connecting" "eventSource s'"
    by blast
  then show ?thesis using s by (auto simp: given_up_def)
qed

lemma single_retry_runs:
  "exhausted_trace single_retry_config 29500 =
     [Connect None 0, Open, Elapse 29500, TransportError OtherValue (1023 / 1024), Fire None 0]"
  "map_option (\<lambda>s. (state s, reconnectAttempts s, clock s, reconnect_timers s))
     (run single_retry_config (exhausted_trace single_retry_config 29500)
        (new_PlexEventSource 0)) =
   Some (fallback, 1, 30000,
         [\<lparr>timer_handle = 1, timer_callback = ReconnectCallback, timer_due = 31499\<rparr>])"
  "map_option (\<lambda>s. (state s, eventSource s, clock s))
     (run single_retry_config (exhausted_trace single_retry_config 29500 @ [Fire None 0])
        (new_PlexEventSource 0)) =
   Some (connecting, True, 31499)"
  by code_simp+

theorem fallback_left_by_pending_timer_witness:
  "1 \<le> MAX_RETRIES single_retry_config \<and>
   exhausted_trace single_retry_config 29500 =
     [Connect None 0, Open, Elapse 29500, TransportError OtherValue (1023 / 1024), Fire None 0] \<and>
   map_option (\<lambda>s. (state s, reconnectAttempts s, clock s, reconnect_timers s))
     (run single_retry_config (exhausted_trace single_retry_config 29500)
        (new_PlexEventSource 0)) =
   Some (fallback, 1, 30000,
         [\<lparr>timer_handle = 1, timer_callback = ReconnectCallback, timer_due = 31499\<rparr>]) \<and>
   map_option (\<lambda>s. (state s, eventSource s, clock s))
     (run single_retry_config (exhausted_trace single_retry_config 29500 @ [Fire None 0])
        (new_PlexEventSource 0)) =
   Some (connecting, True, 31499) \<and>
   (\<exists>s s'. run example_config (exhausted_trace example_config 29500)
              (new_PlexEventSource 0) = Some s \<and>
           state s = fallback \<and> 10 \<le> reconnectAttempts s \<and>
           pending s = [\<lparr>timer_handle = 1, timer_callback = ReconnectCallback,
                         timer_due = 31499\<rparr>] \<and>
           step example_config (Fire None 0) s = Some s' \<and> state s' = connecting) \<and>
   (\<exists>s s'. run single_retry_config (exhausted_trace single_retry_config 29500)
              (new_PlexEventSource 0) = Some s \<and>
           state s = fallback \<and>
           step single_retry_config (Fire None 0) s = Some s' \<and> state s' = connecting)"
proof -
  note v = example_timeouts
  have h1: "1 \<le> MAX_RETRIES single_retry_config" "(0::real) \<le> 29500"
    "29500 \<le> timeout_ms (HEARTBEAT_TIMEOUT_MS single_retry_config)"
    "timeout_ms (HEARTBEAT_TIMEOUT_MS single_retry_config) \<le> 29500 + 999"
    "0 \<le> INITIAL_RETRY_DELAY_MS single_retry_config"
    "0 \<le> MAX_RETRY_DELAY_MS single_retry_config"
    "MAX_RETRY_DELAY_MS single_retry_config \<le> 2147482647"
    unfolding v by (simp_all add: single_retry_config_def example_config_def)
  have h10: "1 \<le> MAX_RETRIES example_config" "(0::real) \<le> 29500"
    "29500 \<le> timeout_ms (HEARTBEAT_TIMEOUT_MS example_config)"
    "timeout_ms (HEARTBEAT_TIMEOUT_MS example_config) \<le> 29500 + 999"
    "0 \<le> INITIAL_RETRY_DELAY_MS example_config" "0 \<le> MAX_RETRY_DELAY_MS example_config"
    "MAX_RETRY_DELAY_MS example_config \<le> 2147482647"
    unfolding v by (simp_all add: example_config_def)
  have m: "MAX_RETRIES example_config = 10" by (simp add: example_config_def)
  have a: "(29500::real) + 1999 = 31499" by simp
  from fallback_left_by_pending_timer[OF h10, unfolded v m a] have
    c: "\<exists>s s'. run example_config (exhausted_trace example_config 29500)
              (new_PlexEventSource 0) = Some s \<and>
           state s = fallback \<and> 10 \<le> reconnectAttempts s \<and>
           pending s = [\<lparr>timer_handle = 1, timer_callback = ReconnectCallback,
                         timer_due = 31499\<rparr>] \<and>
           step example_config (Fire None 0) s = Some s' \<and> state s' = connecting"
    by blast
  from fallback_left_by_pending_timer[OF h1] have
    c1: "\<exists>s s'. run single_retry_config (exhausted_trace single_retry_config 29500)
              (new_PlexEventSource 0) = Some s \<and>
           state s = fallback \<and>
           step single_retry_config (Fire None 0) s = Some s' \<and> state s' = connecting"
    by blast
  show ?thesis using h1(1) single_retry_runs c c1 by blast
qed

section \<open>Properties of the import\<close>

subsection \<open>Progress counters\<close>

lemma progress_le_refl [simp]: "progress_le p p"
  by (simp add: progress_le_def)

lemma progress_le_trans: "progress_le p q \<Longrightarrow> progress_le q r \<Longrightarrow> progress_le p r"
  by (simp add: progress_le_def)

lemma log_monotone_advance:
  assumes "log_monotone st" "published st' = published st"
      and "progress_le (progress st) (progress st')"
  shows "log_monotone st'"
  using assms
  by (auto simp: log_monotone_def sorted_wrt_append intro: progress_le_trans)

lemma log_monotone_publish: "log_monotone st \<Longrightarrow> log_monotone (publishProgress st)"
  by (auto simp: log_monotone_def publishProgress_def sorted_wrt_append)

lemma log_monotone_published: "log_monotone st \<Longrightarrow> sorted_wrt progress_le (published st)"
  by (simp add: log_monotone_def sorted_wrt_append)

lemma counts_progress_le:
  "progress_le (progress st) (progress (count_processed st))"
  "progress_le (progress st) (progress (count_skipped st))"
  "progress_le (progress st) (progress (count_imported st))"
  "progress_le (progress st) (progress (count_error st))"
  by (simp_all add: progress_le_def count_processed_def count_skipped_def count_imported_def
        count_error_def)

lemma publish_every_10_fields [simp]:
  "progress (publish_every_10 st) = progress st"
  "imported_count (publish_every_10 st) = imported_count st"
  "skipped_count (publish_every_10 st) = skipped_count st"
  "errors_count (publish_every_10 st) = errors_count st"
  "sessions (publish_every_10 st) = sessions st"
  by (simp_all add: publish_every_10_def publishProgress_def)

lemma count_fields [simp]:
  "sessions (count_processed st) = sessions st"
  "sessions (count_skipped st) = sessions st"
  "sessions (count_imported st) = sessions st"
  "sessions (count_error st) = sessions st"
  "published (count_processed st) = published st"
  "published (count_skipped st) = published st"
  "published (count_imported st) = published st"
  "published (count_error st) = published st"
  by (simp_all add: count_processed_def count_skipped_def count_imported_def count_error_def)

lemma publishProgress_sessions [simp]: "sessions (publishProgress st) = sessions st"
  by (simp add: publishProgress_def)

text \<open>Every path through the loop body counts the record once, under one outcome.\<close>

lemma process_record_outcome:
  "\<exists>out. counted_as out st (process_record sid um lk rf st)"
proof -
  have e: "counted_as was_error st (publish_every_10 (count_error (count_processed st)))"
    by (simp add: counted_as_def count_error_def count_processed_def)
  have i: "counted_as was_imported st
             (publish_every_10 (count_imported ((count_processed st)\<lparr>sessions := rows\<rparr>)))" for rows
    by (simp add: counted_as_def count_imported_def count_processed_def)
  have s: "counted_as was_skipped st (count_skipped ((count_processed st)\<lparr>sessions := rows\<rparr>))"
    for rows
    by (simp add: counted_as_def count_skipped_def count_processed_def)
  have s0: "counted_as was_skipped st (count_skipped (count_processed st))"
    by (simp add: counted_as_def count_skipped_def count_processed_def)
  show ?thesis
    unfolding process_record_def Let_def
    using e i s s0 by (auto split: option.splits)
qed

lemma counted_as_accounted: "counted_as out st st' \<Longrightarrow> accounted st \<Longrightarrow> accounted st'"
  by (cases out) (simp_all add: counted_as_def accounted_def)

lemma counted_as_le: "counted_as out st st' \<Longrightarrow> progress_le (progress st) (progress st')"
  by (simp add: counted_as_def progress_le_def)

lemma process_record_accounted: "accounted st \<Longrightarrow> accounted (process_record sid um lk rf st)"
  using process_record_outcome counted_as_accounted by blast

lemma log_monotone_publish_every_10: "log_monotone st \<Longrightarrow> log_monotone (publish_every_10 st)"
  by (simp add: publish_every_10_def log_monotone_publish)

lemma log_monotone_count:
  assumes "log_monotone st"
  shows "log_monotone (count_processed st)" "log_monotone (count_skipped st)"
        "log_monotone (count_imported st)" "log_monotone (count_error st)"
  using assms by (auto intro: log_monotone_advance[where st=st] simp: counts_progress_le)

lemma log_monotone_sessions: "log_monotone st \<Longrightarrow> log_monotone (st\<lparr>sessions := rows\<rparr>)"
  by (simp add: log_monotone_def)

lemma process_record_log_monotone:
  assumes "log_monotone st" shows "log_monotone (process_record sid um lk rf st)"
proof -
  note m = log_monotone_count log_monotone_sessions log_monotone_publish_every_10
  have p: "log_monotone (count_processed st)" using assms by (rule m)
  show ?thesis unfolding process_record_def Let_def
    using p by (auto split: option.splits intro!: m)
qed

lemma fold_process_record:
  "accounted st \<Longrightarrow> log_monotone st \<Longrightarrow>
   accounted (fold (process_record sid um lk) rs st) \<and>
   log_monotone (fold (process_record sid um lk) rs st)"
  by (induction rs arbitrary: st)
     (simp_all add: process_record_accounted process_record_log_monotone)

lemma progress_update_keeps:
  assumes "accounted st" "log_monotone st"
  shows "accounted (st\<lparr>progress := (progress st)\<lparr>status := a, currentPage := b, message := c\<rparr>\<rparr>)"
    and "log_monotone (st\<lparr>progress := (progress st)\<lparr>status := a, currentPage := b, message := c\<rparr>\<rparr>)"
    and "accounted (st\<lparr>progress := (progress st)\<lparr>message := c\<rparr>\<rparr>)"
    and "log_monotone (st\<lparr>progress := (progress st)\<lparr>message := c\<rparr>\<rparr>)"
    and "accounted (st\<lparr>progress := (progress st)\<lparr>status := a, message := c\<rparr>\<rparr>)"
    and "log_monotone (st\<lparr>progress := (progress st)\<lparr>status := a, message := c\<rparr>\<rparr>)"
    and "accounted (st\<lparr>progress := (progress st)\<lparr>totalRecords := x, totalPages := y, message := c\<rparr>\<rparr>)"
    and "log_monotone (st\<lparr>progress := (progress st)\<lparr>totalRecords := x, totalPages := y, message := c\<rparr>\<rparr>)"
  using assms by (simp_all add: accounted_def log_monotone_def sorted_wrt_append progress_le_def)

lemma accounted_publish: "accounted st \<Longrightarrow> accounted (publishProgress st)"
  by (simp add: accounted_def publishProgress_def)

lemma import_pages_invariant:
  "accounted st \<Longrightarrow> log_monotone st \<Longrightarrow>
   accounted (pages_state (import_pages sid um lk gh n page st)) \<and>
   log_monotone (pages_state (import_pages sid um lk gh n page st))"
proof (induction sid um lk gh n page st rule: import_pages.induct)
  case (1 sid um lk gh n page st)
  show ?case
  proof (cases "page * PAGE_SIZE < n")
    case False
    then have "import_pages sid um lk gh n page st = Inr st"
      by (subst import_pages.simps) simp
    then show ?thesis using "1.prems" by (simp add: pages_state_def)
  next
    case True
    let ?st1 = "publishProgress (st\<lparr>progress := (progress st)\<lparr>status := status_processing,
        currentPage := page + 1,
        message := ProcessingPage (page + 1) (totalPages (progress st))\<rparr>\<rparr>)"
    have a1: "accounted ?st1" and l1: "log_monotone ?st1"
      using "1.prems"
      by (auto intro!: accounted_publish log_monotone_publish progress_update_keeps)
    show ?thesis
    proof (cases "gh page")
      case (FetchFails e)
      have "import_pages sid um lk gh n page st = Inl (e, ?st1)"
        by (subst import_pages.simps) (simp add: True FetchFails Let_def)
      then show ?thesis using a1 l1 by (simp add: pages_state_def)
    next
      case (Page records)
      let ?st2 = "fold (process_record sid um lk) records ?st1"
      have a2: "accounted ?st2" and l2: "log_monotone ?st2"
        using fold_process_record[OF a1 l1] by simp_all
      have "import_pages sid um lk gh n page st = import_pages sid um lk gh n (page + 1) ?st2"
        by (subst import_pages.simps) (simp add: True Page Let_def)
      then show ?thesis using "1.IH"[OF True refl Page a2 l2] by simp
    qed
  qed
qed

lemma idle_ok:
  "accounted \<lparr> progress = initial_progress, imported_count = 0, skipped_count = 0,
               errors_count = 0, sessions = rows, published = [] \<rparr>"
  "log_monotone \<lparr> progress = initial_progress, imported_count = 0, skipped_count = 0,
               errors_count = 0, sessions = rows, published = [] \<rparr>"
  by (simp_all add: accounted_def log_monotone_def initial_progress_def)

text \<open>The shape of every run of the method, by the four ways it can end.\<close>

lemma importHistory_cases:
  fixes sid env rows
  defines "idle \<equiv> \<lparr> progress = initial_progress, imported_count = 0, skipped_count = 0,
                     errors_count = 0, sessions = rows, published = [] \<rparr>"
  defines "st0 \<equiv> publishProgress idle"
  obtains
    (refused) m where "importHistory sid env rows = Inr (failed_result m, idle)"
  | (no_total) e where "importHistory sid env rows = Inl (e, st0)"
  | (thrown) n e st where "history_total env = Inr n"
      "import_pages sid (userMap_of env) (geoip_lookup env) (history_page env) n 0
         (publishProgress (st0\<lparr>progress := (progress st0)\<lparr>totalRecords := n,
            totalPages := (n + PAGE_SIZE - 1) div PAGE_SIZE, message := Found n\<rparr>\<rparr>)) = Inl (e, st)"
      "importHistory sid env rows = Inl (e, st)"
  | (completed) n st2 where "history_total env = Inr n"
      "import_pages sid (userMap_of env) (geoip_lookup env) (history_page env) n 0
         (publishProgress (st0\<lparr>progress := (progress st0)\<lparr>totalRecords := n,
            totalPages := (n + PAGE_SIZE - 1) div PAGE_SIZE, message := Found n\<rparr>\<rparr>)) = Inr st2"
      "importHistory sid env rows =
         (let st3 = publishProgress (st2\<lparr>progress := (progress st2)\<lparr>message := RefreshingAggregates\<rparr>\<rparr>);
              final_message = ImportComplete (imported_count st3) (skipped_count st3) (errors_count st3);
              st4 = publishProgress (st3\<lparr>progress := (progress st3)\<lparr>status := status_complete,
                                                                  message := final_message\<rparr>\<rparr>)
          in Inr (\<lparr> success = True, imported = imported_count st4, skipped = skipped_count st4,
                    errors = errors_count st4, result_message = final_message \<rparr>, st4))"
proof (cases "configured (tautulli_settings env) \<and> testConnection env")
  case False
  then have "importHistory sid env rows = Inr (failed_result NotConfigured, idle) \<or>
             importHistory sid env rows = Inr (failed_result ConnectFailed, idle)"
    by (auto simp: importHistory_def idle_def Let_def)
  then show ?thesis using refused by blast
next
  case True
  show ?thesis
  proof (cases "history_total env")
    case (Inl e)
    then have "importHistory sid env rows = Inl (e, st0)"
      using True by (simp add: importHistory_def idle_def st0_def Let_def)
    then show ?thesis by (rule no_total)
  next
    case (Inr n)
    let ?st1 = "publishProgress (st0\<lparr>progress := (progress st0)\<lparr>totalRecords := n,
            totalPages := (n + PAGE_SIZE - 1) div PAGE_SIZE, message := Found n\<rparr>\<rparr>)"
    show ?thesis
    proof (cases "import_pages sid (userMap_of env) (geoip_lookup env) (history_page env) n 0 ?st1")
      case (Inl x)
      obtain e st where x: "x = (e, st)" by (cases x)
      have "importHistory sid env rows = Inl (e, st)"
        using True Inr Inl x by (simp add: importHistory_def idle_def st0_def Let_def)
      then show ?thesis using thrown[OF Inr Inl[unfolded x]] by blast
    next
      case st2: (Inr st2)
      show ?thesis
        by (rule completed[OF Inr st2])
           (use True Inr st2 in \<open>simp add: importHistory_def idle_def st0_def Let_def\<close>)
    qed
  qed
qed

lemma importHistory_invariant:
  "accounted (state_after (importHistory sid env rows)) \<and>
   log_monotone (state_after (importHistory sid env rows))"
proof -
  let ?idle = "\<lparr> progress = initial_progress, imported_count = 0, skipped_count = 0,
                 errors_count = 0, sessions = rows, published = [] \<rparr>"
  let ?st0 = "publishProgress ?idle"
  have a0: "accounted ?st0" and l0: "log_monotone ?st0"
    by (auto intro!: accounted_publish log_monotone_publish idle_ok)
  have a1: "accounted (publishProgress (?st0\<lparr>progress := (progress ?st0)\<lparr>totalRecords := n,
            totalPages := (n + PAGE_SIZE - 1) div PAGE_SIZE, message := Found n\<rparr>\<rparr>))"
   and l1: "log_monotone (publishProgress (?st0\<lparr>progress := (progress ?st0)\<lparr>totalRecords := n,
            totalPages := (n + PAGE_SIZE - 1) div PAGE_SIZE, message := Found n\<rparr>\<rparr>))" for n
    using a0 l0 by (auto intro!: accounted_publish log_monotone_publish progress_update_keeps)
  show ?thesis
  proof (cases sid env rows rule: importHistory_cases)
    case (refused m)
    then show ?thesis using idle_ok[of rows] by (simp add: state_after_def)
  next
    case (no_total e)
    then show ?thesis using a0 l0 by (simp add: state_after_def)
  next
    case (thrown n e st)
    have "accounted (pages_state (Inl (e, st))) \<and> log_monotone (pages_state (Inl (e, st)))"
      unfolding thrown(2)[symmetric] by (rule import_pages_invariant[OF a1 l1])
    then have "accounted st \<and> log_monotone st"
      by (simp add: pages_state_def)
    then show ?thesis using thrown(3) by (simp add: state_after_def)
  next
    case (completed n st2)
    have "accounted (pages_state (Inr st2)) \<and> log_monotone (pages_state (Inr st2))"
      unfolding completed(2)[symmetric] by (rule import_pages_invariant[OF a1 l1])
    then have 2: "accounted st2" "log_monotone st2"
      by (simp_all add: pages_state_def)
    let ?st3 = "publishProgress (st2\<lparr>progress := (progress st2)\<lparr>message := RefreshingAggregates\<rparr>\<rparr>)"
    have 3: "accounted ?st3" "log_monotone ?st3"
      using 2 by (auto intro!: accounted_publish log_monotone_publish progress_update_keeps)
    have 4: "accounted (publishProgress (?st3\<lparr>progress := (progress ?st3)\<lparr>status := a, message := c\<rparr>\<rparr>))"
            "log_monotone (publishProgress (?st3\<lparr>progress := (progress ?st3)\<lparr>status := a, message := c\<rparr>\<rparr>))"
      for a c
      using 3 by (auto intro!: accounted_publish log_monotone_publish progress_update_keeps)
    show ?thesis unfolding completed(3) Let_def state_after_def using 4 by simp
  qed
qed

lemma importHistory_completed:
  assumes "importHistory sid env rows = Inr (res, st')" "success res"
  shows "status (progress st') = status_complete \<and>
         imported res = imported_count st' \<and> skipped res = skipped_count st' \<and>
         errors res = errors_count st' \<and> published st' \<noteq> [] \<and>
         last (published st') = progress st'"
proof (cases sid env rows rule: importHistory_cases)
  case (refused m)
  then show ?thesis using assms by (simp add: failed_result_def)
next
  case (no_total e)
  then show ?thesis using assms by simp
next
  case (thrown n e st)
  then show ?thesis using assms by simp
next
  case (completed n st2)
  show ?thesis
    using assms(1) unfolding completed(3) Let_def
    by (auto simp: publishProgress_def)
qed

subsection \<open>Re-import of a known reference\<close>


























subsection \<open>An import of one record, evaluated\<close>












subsection \<open>Counters\<close>

text \<open>
  What \<open>importHistory\<close> counts. Every record processed raises \<open>processedRecords\<close> by one
  and exactly one of \<open>importedRecords\<close>, \<open>skippedRecords\<close> and \<open>errorRecords\<close> by one, so no
  counter ever decreases; the snapshots a run publishes, whether it completes or a fetch
  throws, are non-decreasing in all four counters; and when the run completes, the last
  snapshot has status \<open>complete\<close> and \<open>processed = imported + skipped + errors\<close>, the counts
  the result carries. A record that updates an existing row is counted as skipped: the
  method has no counter \<open>updated\<close>.
\<close>

lemma importHistory_counters:
  "(\<exists>out. counted_as out st (process_record sid um lk rf st)) \<and>
   progress_le (progress st) (progress (process_record sid um lk rf st)) \<and>
   sorted_wrt progress_le (published (state_after (importHistory sid env rows))) \<and>
   (importHistory sid env rows = Inr (res, st') \<and> success res \<longrightarrow>
      status (progress st') = status_complete \<and>
      last (published st') = progress st' \<and>
      processedRecords (progress st') =
        importedRecords (progress st') + skippedRecords (progress st') +
        errorRecords (progress st') \<and>
      imported res = importedRecords (progress st') \<and>
      skipped res = skippedRecords (progress st') \<and>
      errors res = errorRecords (progress st'))"
proof -
  obtain out where o: "counted_as out st (process_record sid um lk rf st)"
    using process_record_outcome by blast
  then have le: "progress_le (progress st) (progress (process_record sid um lk rf st))"
    by (rule counted_as_le)
  have inv: "accounted (state_after (importHistory sid env rows))"
            "log_monotone (state_after (importHistory sid env rows))"
    using importHistory_invariant[of sid env rows] by simp_all
  have mono: "sorted_wrt progress_le (published (state_after (importHistory sid env rows)))"
    using inv(2) by (rule log_monotone_published)
  have fin: "status (progress st') = status_complete \<and>
      last (published st') = progress st' \<and>
      processedRecords (progress st') =
        importedRecords (progress st') + skippedRecords (progress st') +
        errorRecords (progress st') \<and>
      imported res = importedRecords (progress st') \<and>
      skipped res = skippedRecords (progress st') \<and>
      errors res = errorRecords (progress st')"
    if r: "importHistory sid env rows = Inr (res, st')" and s: "success res"
  proof -
    have a: "accounted st'" using inv(1) unfolding r by (simp add: state_after_def)
    have c: "status (progress st') = status_complete \<and>
         imported res = imported_count st' \<and> skipped res = skipped_count st' \<and>
         errors res = errors_count st' \<and> published st' \<noteq> [] \<and>
         last (published st') = progress st'"
      using r s by (rule importHistory_completed)
    show ?thesis using a c by (simp add: accounted_def)
  qed
  show ?thesis using o le mono fin by blast
qed

section \<open>Properties of the import queue\<close>

subsection \<open>Counters of a job\<close>







section \<open>Properties of the import queue\<close>

lemma decimal_nonempty: "decimal n \<noteq> []"
  by (subst decimal.simps) simp

lemma set_getJobs:
  "set (getJobs [active, waiting, delayed] q) =
     {j \<in> set (jobs q). job_state j = active \<or> job_state j = waiting \<or> job_state j = delayed}"
  by (auto simp: getJobs_def)

lemma getActiveImportForServer_none:
  assumes "\<not> in_flight sid q"
  shows "getActiveImportForServer sid (Some q) = None"
proof -
  have "find (\<lambda>j. job_serverId (job_data j) = sid) (getJobs [active, waiting, delayed] q) = None"
    using assms by (auto simp: find_None_iff set_getJobs in_flight_def list_ex_iff)
  then show ?thesis by (simp add: getActiveImportForServer_def)
qed

lemma getActiveImportForServer_found:
  assumes "in_flight sid q" "ids_present q"
  shows "\<exists>j i. j \<in> set (jobs q) \<and> job_serverId (job_data j) = sid \<and>
               (job_state j = waiting \<or> job_state j = active \<or> job_state j = delayed) \<and>
               job_id j = Some i \<and> i \<noteq> [] \<and>
               getActiveImportForServer sid (Some q) = Some i"
proof -
  let ?P = "\<lambda>j. job_serverId (job_data j) = sid"
  have "\<exists>j \<in> set (getJobs [active, waiting, delayed] q). ?P j"
    using assms(1) by (auto simp: set_getJobs in_flight_def list_ex_iff)
  then obtain j where f: "find ?P (getJobs [active, waiting, delayed] q) = Some j"
    by (cases "find ?P (getJobs [active, waiting, delayed] q)") (auto simp: find_None_iff)
  then have j: "j \<in> set (getJobs [active, waiting, delayed] q)" "?P j"
    by (auto simp: find_Some_iff)
  then have js: "j \<in> set (jobs q)"
      "job_state j = waiting \<or> job_state j = active \<or> job_state j = delayed"
    by (auto simp: set_getJobs)
  obtain i where i: "job_id j = Some i" "i \<noteq> []"
    using assms(2) js(1) by (cases "job_id j") (auto simp: ids_present_def list_all_iff)
  have "getActiveImportForServer sid (Some q) = Some i"
    using f i by (simp add: getActiveImportForServer_def)
  then show ?thesis using j js i by blast
qed

text \<open>
  C6. On an initialised queue whose jobs all carry an id, \<open>enqueueImport\<close> throws the
  conflict, naming a job of that server that waits, runs or is delayed, and leaves the queue
  as it was, whenever such a job exists; otherwise it adds one waiting job for the server
  and the user and returns its id, the next value of the queue's counter. No such job
  exists, in particular, when every job of the server has completed or failed. After a
  successful call the jobs still all carry an id and the server has a job in flight.
\<close>

theorem enqueue_contract:
  assumes "ids_present q"
  shows "(if in_flight sid q
          then \<exists>j i. j \<in> set (jobs q) \<and> job_serverId (job_data j) = sid \<and>
                 (job_state j = waiting \<or> job_state j = active \<or> job_state j = delayed) \<and>
                 job_id j = Some i \<and>
                 enqueueImport sid uid now (Some q) = (Inl (AlreadyInProgress sid i), Some q)
          else \<exists>q'. enqueueImport sid uid now (Some q) =
                        (Inr (decimal (Suc (id_counter q))), Some q') \<and>
                 jobs q' = jobs q @
                   [\<lparr> job_id = Some (decimal (Suc (id_counter q))), job_name = ''tautulli-import'',
                      job_data = \<lparr> job_type = ''tautulli'', job_serverId = sid, job_userId = uid,
                                   checkpoint = None \<rparr>,
                      job_state = waiting \<rparr>] \<and>
                 ids_present q' \<and> in_flight sid q') \<and>
         (all_terminal sid q \<longrightarrow> \<not> in_flight sid q)"
proof -
  have t: "all_terminal sid q \<longrightarrow> \<not> in_flight sid q"
    by (auto simp: all_terminal_def in_flight_def list_all_iff list_ex_iff)
  show ?thesis
  proof (cases "in_flight sid q")
    case True
    from getActiveImportForServer_found[OF True assms] obtain j i where
      j: "j \<in> set (jobs q)" "job_serverId (job_data j) = sid"
         "job_state j = waiting \<or> job_state j = active \<or> job_state j = delayed"
         "job_id j = Some i" "i \<noteq> []"
      and g: "getActiveImportForServer sid (Some q) = Some i"
      by blast
    have "enqueueImport sid uid now (Some q) = (Inl (AlreadyInProgress sid i), Some q)"
      using g j(5) by (simp add: enqueueImport_def)
    then show ?thesis using True j t by auto
  next
    case False
    let ?j = "\<lparr> job_id = Some (decimal (Suc (id_counter q))), job_name = ''tautulli-import'',
                job_data = \<lparr> job_type = ''tautulli'', job_serverId = sid, job_userId = uid,
                             checkpoint = None \<rparr>,
                job_state = waiting \<rparr>"
    let ?q' = "q\<lparr>jobs := jobs q @ [?j], id_counter := Suc (id_counter q)\<rparr>"
    have e: "enqueueImport sid uid now (Some q) = (Inr (decimal (Suc (id_counter q))), Some ?q')"
      using getActiveImportForServer_none[OF False]
      by (simp add: enqueueImport_def Queue_add_def Let_def)
    have "ids_present ?q'" using assms by (simp add: ids_present_def decimal_nonempty)
    moreover have "in_flight sid ?q'" by (simp add: in_flight_def)
    ultimately show ?thesis using False e t by auto
  qed
qed

lemma decimal_2: "decimal (Suc (Suc 0)) = ''2''"
  by code_simp

theorem enqueue_contract_witness:
  "ids_present (example_queue active) \<and> in_flight ''srv'' (example_queue active) \<and>
   enqueueImport ''srv'' ''admin'' ''0'' (Some (example_queue active)) =
     (Inl (AlreadyInProgress ''srv'' ''1''), Some (example_queue active)) \<and>
   ids_present (example_queue completed) \<and> all_terminal ''srv'' (example_queue completed) \<and>
   fst (enqueueImport ''srv'' ''admin'' ''0'' (Some (example_queue completed))) = Inr ''2'' \<and>
   \<not> in_flight ''other'' (example_queue active) \<and>
   fst (enqueueImport ''other'' ''admin'' ''0'' (Some (example_queue active))) = Inr ''2''"
proof -
  have p: "ids_present (example_queue js)" for js
    by (simp add: ids_present_def example_queue_def)
  have a: "in_flight ''srv'' (example_queue active)"
    by (simp add: in_flight_def example_queue_def)
  have c: "all_terminal ''srv'' (example_queue completed)"
    by (simp add: all_terminal_def example_queue_def)
  have o: "\<not> in_flight ''other'' (example_queue active)"
    by (simp add: in_flight_def example_queue_def)
  have n: "id_counter (example_queue js) = 1" for js
    by (simp add: example_queue_def)
  have "\<exists>j i. j \<in> set (jobs (example_queue active)) \<and> job_id j = Some i \<and>
          enqueueImport ''srv'' ''admin'' ''0'' (Some (example_queue active)) =
            (Inl (AlreadyInProgress ''srv'' i), Some (example_queue active))"
    using enqueue_contract[OF p, of "''srv''" active "''admin''" "''0''"] a by auto
  then have 1: "enqueueImport ''srv'' ''admin'' ''0'' (Some (example_queue active)) =
      (Inl (AlreadyInProgress ''srv'' ''1''), Some (example_queue active))"
    by (auto simp: example_queue_def)
  have "\<not> in_flight ''srv'' (example_queue completed)"
    using enqueue_contract[OF p, of "''srv''" completed "''admin''" "''0''"] c by blast
  then have 2: "fst (enqueueImport ''srv'' ''admin'' ''0'' (Some (example_queue completed))) =
      Inr ''2''"
    using enqueue_contract[OF p, of "''srv''" completed "''admin''" "''0''"]
    by (auto simp: n decimal_2)
  have 3: "fst (enqueueImport ''other'' ''admin'' ''0'' (Some (example_queue active))) = Inr ''2''"
    using enqueue_contract[OF p, of "''other''" active "''admin''" "''0''"] o
    by (auto simp: n decimal_2)
  show ?thesis using p a c o 1 2 3 by blast
qed

end
